theory Spec2Isabelle
  imports Complex_Main
begin

section \<open>Python floats\<close>

text \<open>
  Losses, learning rates and tensor entries are IEEE floats in the notebooks. The model keeps
  the three special values apart from the finite ones, because the checkpoint test of
  \<open>train\<close> compares against \<open>np.Inf\<close> and a comparison with NaN is false.
  Finite values are real numbers: rounding, overflow and the sign of zero are left out.
\<close>

datatype pyfloat = Fin real | PInf | NInf | NaN

fun fneg :: "pyfloat \<Rightarrow> pyfloat" where
  "fneg (Fin a) = Fin (- a)"
| "fneg PInf = NInf"
| "fneg NInf = PInf"
| "fneg NaN = NaN"

fun fadd :: "pyfloat \<Rightarrow> pyfloat \<Rightarrow> pyfloat" where
  "fadd NaN y = NaN"
| "fadd x NaN = NaN"
| "fadd (Fin a) (Fin b) = Fin (a + b)"
| "fadd PInf NInf = NaN"
| "fadd NInf PInf = NaN"
| "fadd PInf y = PInf"
| "fadd NInf y = NInf"
| "fadd (Fin a) y = y"

fun fmul :: "pyfloat \<Rightarrow> pyfloat \<Rightarrow> pyfloat" where
  "fmul NaN y = NaN"
| "fmul x NaN = NaN"
| "fmul (Fin a) (Fin b) = Fin (a * b)"
| "fmul (Fin a) y = (if a = 0 then NaN else if 0 < a then y else fneg y)"
| "fmul x (Fin b) = (if b = 0 then NaN else if 0 < b then x else fneg x)"
| "fmul PInf y = y"
| "fmul NInf y = fneg y"

text \<open>The comparison \<open>x <= y\<close> of two floats: false as soon as one side is NaN.\<close>

fun fle :: "pyfloat \<Rightarrow> pyfloat \<Rightarrow> bool" where
  "fle NaN y = False"
| "fle x NaN = False"
| "fle (Fin a) (Fin b) = (a \<le> b)"
| "fle NInf y = True"
| "fle x PInf = True"
| "fle PInf y = False"
| "fle (Fin a) NInf = False"

text \<open>\<open>x < y\<close>, used to say what "decreased" means.\<close>

fun flt :: "pyfloat \<Rightarrow> pyfloat \<Rightarrow> bool" where
  "flt NaN y = False"
| "flt x NaN = False"
| "flt (Fin a) (Fin b) = (a < b)"
| "flt PInf y = False"
| "flt x NInf = False"
| "flt NInf y = True"
| "flt (Fin a) PInf = True"

datatype error = ZeroDivisionError | RuntimeError | ValueError

text \<open>
  \<open>x / len(...)\<close>: a float divided by a Python int that is a length. Python raises
  \<open>ZeroDivisionError\<close> when the length is 0.
\<close>

definition truediv_len :: "pyfloat \<Rightarrow> nat \<Rightarrow> error + pyfloat" where
  "truediv_len x n =
     (if n = 0 then Inl ZeroDivisionError
      else Inr (case x of Fin a \<Rightarrow> Fin (a / real n) | PInf \<Rightarrow> PInf | NInf \<Rightarrow> NInf | NaN \<Rightarrow> NaN))"

section \<open>Tensors, modules, optimizer\<close>

text \<open>
  Parameter tensors live in a heap, addressed by references: the module and the optimizer both
  hold references to the same tensors, so an optimizer step is seen through the module.
  \<open>require_grad\<close> is the attribute the transfer notebook sets in its "freeze" cell; autograd
  reads \<open>requires_grad\<close> only.
\<close>

record tensor =
  data :: "pyfloat list"
  grad :: "pyfloat list option"
  requires_grad :: bool
  require_grad :: "bool option"

type_synonym heap = "nat \<Rightarrow> tensor option"

definition modify :: "heap \<Rightarrow> nat \<Rightarrow> (tensor \<Rightarrow> tensor) \<Rightarrow> heap" where
  "modify h r f = (case h r of None \<Rightarrow> h | Some t \<Rightarrow> h(r \<mapsto> f t))"

text \<open>
  The value \<open>model(data)\<close> returns: the logits, one row per sample, and the autograd graph
  behind them. The value \<open>criterion(output, target)\<close> returns: the scalar read by \<open>.item()\<close>
  and the leaf tensors of its graph, each with the gradient that \<open>.backward()\<close> adds to it.
\<close>

datatype 'g out = Output (rows: "pyfloat list list") (grad_fn: 'g)

datatype loss = Loss (item: pyfloat) (leaf_grads: "(nat \<times> pyfloat list) list")

text \<open>
  A module with the two sub-modules both networks have. \<open>forward\<close> reads the parameter heap,
  the module's buffers (the running statistics of batch normalisation) and the state of the
  random generator (dropout is active: the notebooks never leave training mode); it returns the
  output and the new buffers. A forward pass of the layers of these networks writes no
  parameter tensor, so \<open>forward\<close> gets the heap to read only.
\<close>

record ('x, 'g, 'b) module =
  features :: "(string \<times> nat) list"
  classifier :: "(string \<times> nat) list"
  forward :: "heap \<Rightarrow> 'b \<Rightarrow> nat \<Rightarrow> 'x list \<Rightarrow> 'g out \<times> 'b"

definition named_parameters :: "('x, 'g, 'b) module \<Rightarrow> (string \<times> nat) list" where
  "named_parameters m = features m @ classifier m"

definition parameters :: "(string \<times> nat) list \<Rightarrow> nat list" where
  "parameters sub = map snd sub"

record optimizer =
  param_groups :: "nat list"
  lr :: pyfloat

definition SGD :: "nat list \<Rightarrow> pyfloat \<Rightarrow> optimizer" where
  "SGD params learning_rate = \<lparr>param_groups = params, lr = learning_rate\<rparr>"

section \<open>The world a notebook runs in\<close>

text \<open>
  The world holds what the notebooks' functions change: the heap of tensors, the buffers of the
  module, the state of the random generator, the files and what has been printed. The trace
  lists, in order, the calls into the framework that have an effect and the lines printed.
  Calls into the framework are taken to return; the exceptions that the arithmetic and the
  tensor shapes of the notebooks' own lines can raise are results of the functions below.
\<close>

datatype event =
    ZeroGrad
  | Forward nat
  | Backward
  | Step
  | TorchSave string
  | PrintTrainingBatch nat nat
  | PrintValidationBatch nat nat
  | PrintEpoch int pyfloat pyfloat
  | PrintSaving pyfloat pyfloat
  | PrintTestLoss pyfloat
  | PrintTestAccuracy int int int

type_synonym 'b state_dict = "(string \<times> pyfloat list) list \<times> 'b"

record 'b world =
  heap :: heap
  buffers :: 'b
  rng :: nat
  files :: "string \<Rightarrow> 'b state_dict option"
  trace :: "event list"

definition emit :: "event \<Rightarrow> 'b world \<Rightarrow> 'b world" where
  "emit e w = w\<lparr>trace := trace w @ [e]\<rparr>"

text \<open>\<open>optimizer.zero_grad()\<close>: the gradients of the optimizer's own tensors are zeroed in place.\<close>

definition zero_grad :: "optimizer \<Rightarrow> 'b world \<Rightarrow> 'b world" where
  "zero_grad opt w =
     emit ZeroGrad
       (w\<lparr>heap := foldl (\<lambda>h r. modify h r (\<lambda>t. t\<lparr>grad := map_option (map (\<lambda>_. Fin 0)) (grad t)\<rparr>))
                     (heap w) (param_groups opt)\<rparr>)"

text \<open>\<open>model(data)\<close>.\<close>

definition call :: "('x, 'g, 'b) module \<Rightarrow> 'x list \<Rightarrow> 'b world \<Rightarrow> 'g out \<times> 'b world" where
  "call m xs w =
     (let (out, b) = forward m (heap w) (buffers w) (rng w) xs
      in (out, emit (Forward (length xs)) (w\<lparr>buffers := b, rng := Suc (rng w)\<rparr>)))"

text \<open>\<open>loss.backward()\<close>: every leaf that requires a gradient accumulates its share.\<close>

definition accumulate :: "pyfloat list option \<Rightarrow> pyfloat list \<Rightarrow> pyfloat list" where
  "accumulate old g = (case old of None \<Rightarrow> g | Some o' \<Rightarrow> map2 fadd o' g)"

definition backward :: "loss \<Rightarrow> 'b world \<Rightarrow> 'b world" where
  "backward l w =
     emit Backward
       (w\<lparr>heap := foldl (\<lambda>h (r, g). modify h r
                              (\<lambda>t. if requires_grad t then t\<lparr>grad := Some (accumulate (grad t) g)\<rparr>
                                   else t))
                     (heap w) (leaf_grads l)\<rparr>)"

text \<open>
  \<open>optimizer.step()\<close> of plain SGD (no momentum, no weight decay, as constructed in both
  notebooks): \<open>p.data.add_(-lr, p.grad)\<close> for each tensor of the optimizer that has a gradient.
\<close>

definition sgd_update :: "pyfloat \<Rightarrow> tensor \<Rightarrow> tensor" where
  "sgd_update rate t =
     (case grad t of
        None \<Rightarrow> t
      | Some g \<Rightarrow> t\<lparr>data := map2 (\<lambda>p d. fadd p (fmul (fneg rate) d)) (data t) g\<rparr>)"

definition step :: "optimizer \<Rightarrow> 'b world \<Rightarrow> 'b world" where
  "step opt w =
     emit Step
       (w\<lparr>heap := foldl (\<lambda>h r. modify h r (sgd_update (lr opt))) (heap w) (param_groups opt)\<rparr>)"

text \<open>\<open>model.state_dict()\<close> and \<open>torch.save(..., save_path)\<close>.\<close>

definition state_dict :: "('x, 'g, 'b) module \<Rightarrow> 'b world \<Rightarrow> 'b state_dict" where
  "state_dict m w =
     (map (\<lambda>(name, r). (name, case heap w r of None \<Rightarrow> [] | Some t \<Rightarrow> data t)) (named_parameters m),
      buffers w)"

definition torch_save :: "'b state_dict \<Rightarrow> string \<Rightarrow> 'b world \<Rightarrow> 'b world" where
  "torch_save sd path w = emit (TorchSave path) (w\<lparr>files := (files w)(path \<mapsto> sd)\<rparr>)"

section \<open>Data loaders\<close>

text \<open>
  A loader is iterated once per epoch; with \<open>shuffle=True\<close> and random augmentation every pass
  may yield other batches, so \<open>batches k\<close> is what the \<open>k\<close>-th pass made by the running function
  yields. A batch is a list of (sample, label) pairs, so \<open>data.size(0)\<close> is its length.
\<close>

record 'x loader =
  batches :: "nat \<Rightarrow> ('x \<times> nat) list list"
  len :: nat
  dataset_len :: nat

record 'x loaders =
  train_loader :: "'x loader"
  valid_loader :: "'x loader"
  test_loader :: "'x loader"

section \<open>The training loop\<close>

text \<open>\<open>x.cuda()\<close> returns the same values on another device.\<close>

definition cuda :: "'a \<Rightarrow> 'a" where
  "cuda x = x"

text \<open>
  The body of the loop over \<open>enumerate(loaders['train'])\<close>: gradients zeroed, forward pass, loss,
  backward pass, one optimizer step, the loss added to \<open>train_loss\<close> weighted by the batch size,
  and a progress line every 200 batches.
\<close>

fun train_step ::
  "'x loaders \<Rightarrow> ('x, 'g, 'b) module \<Rightarrow> optimizer \<Rightarrow> ('g out \<Rightarrow> nat list \<Rightarrow> loss) \<Rightarrow> bool
   \<Rightarrow> pyfloat \<times> 'b world \<Rightarrow> nat \<times> ('x \<times> nat) list \<Rightarrow> pyfloat \<times> 'b world" where
  "train_step loaders model optimizer criterion use_cuda (train_loss, w) (batch_idx, batch) =
     (let (xs, target) = (map fst batch, map snd batch);
          (xs, target) = (if use_cuda then (cuda xs, cuda target) else (xs, target));
          w = zero_grad optimizer w;
          (output, w) = call model xs w;
          l = criterion output target;
          w = backward l w;
          w = step optimizer w;
          train_loss = fadd train_loss (fmul (item l) (Fin (real (length xs))));
          w = (if batch_idx mod 200 = 0
               then emit (PrintTrainingBatch batch_idx (len (train_loader loaders))) w else w)
      in (train_loss, w))"

text \<open>The body of the loop over \<open>enumerate(loaders['valid'])\<close>: forward pass and loss only.\<close>

fun valid_step ::
  "'x loaders \<Rightarrow> ('x, 'g, 'b) module \<Rightarrow> ('g out \<Rightarrow> nat list \<Rightarrow> loss) \<Rightarrow> bool
   \<Rightarrow> pyfloat \<times> 'b world \<Rightarrow> nat \<times> ('x \<times> nat) list \<Rightarrow> pyfloat \<times> 'b world" where
  "valid_step loaders model criterion use_cuda (valid_loss, w) (batch_idx, batch) =
     (let (xs, target) = (map fst batch, map snd batch);
          (xs, target) = (if use_cuda then (cuda xs, cuda target) else (xs, target));
          (output, w) = call model xs w;
          l = criterion output target;
          valid_loss = fadd valid_loss (fmul (item l) (Fin (real (length xs))));
          w = (if batch_idx mod 200 = 0
               then emit (PrintValidationBatch batch_idx (len (valid_loader loaders))) w else w)
      in (valid_loss, w))"

definition train_phase ::
  "'x loaders \<Rightarrow> ('x, 'g, 'b) module \<Rightarrow> optimizer \<Rightarrow> ('g out \<Rightarrow> nat list \<Rightarrow> loss) \<Rightarrow> bool
   \<Rightarrow> nat \<Rightarrow> 'b world \<Rightarrow> pyfloat \<times> 'b world" where
  "train_phase loaders model optimizer criterion use_cuda k w =
     foldl (train_step loaders model optimizer criterion use_cuda) (Fin 0, w)
       (enumerate 0 (batches (train_loader loaders) k))"

definition valid_phase ::
  "'x loaders \<Rightarrow> ('x, 'g, 'b) module \<Rightarrow> ('g out \<Rightarrow> nat list \<Rightarrow> loss) \<Rightarrow> bool
   \<Rightarrow> nat \<Rightarrow> 'b world \<Rightarrow> pyfloat \<times> 'b world" where
  "valid_phase loaders model criterion use_cuda k w =
     foldl (valid_step loaders model criterion use_cuda) (Fin 0, w)
       (enumerate 0 (batches (valid_loader loaders) k))"

text \<open>
  One epoch up to its two means: both loops, then \<open>train_loss / len(loaders['train'].dataset)\<close>
  and \<open>valid_loss / len(loaders['valid'].dataset)\<close>. Epoch \<open>epoch\<close> makes pass \<open>epoch - 1\<close> over
  each loader.
\<close>

definition epoch_losses ::
  "'x loaders \<Rightarrow> ('x, 'g, 'b) module \<Rightarrow> optimizer \<Rightarrow> ('g out \<Rightarrow> nat list \<Rightarrow> loss) \<Rightarrow> bool
   \<Rightarrow> 'b world \<Rightarrow> int \<Rightarrow> (error + pyfloat \<times> pyfloat) \<times> 'b world" where
  "epoch_losses loaders model optimizer criterion use_cuda w epoch =
     (let (train_loss, w) = train_phase loaders model optimizer criterion use_cuda (nat (epoch - 1)) w;
          (valid_loss, w) = valid_phase loaders model criterion use_cuda (nat (epoch - 1)) w
      in case truediv_len train_loss (dataset_len (train_loader loaders)) of
           Inl e \<Rightarrow> (Inl e, w)
         | Inr train_loss \<Rightarrow>
             (case truediv_len valid_loss (dataset_len (valid_loader loaders)) of
                Inl e \<Rightarrow> (Inl e, w)
              | Inr valid_loss \<Rightarrow> (Inr (train_loss, valid_loss), w)))"

text \<open>
  The end of an epoch: the statistics line, then
  \<open>if valid_loss <= valid_loss_min: print(...); torch.save(model.state_dict(), save_path);
  valid_loss_min = valid_loss\<close>. The result is the new running minimum.
\<close>

definition save_if_decreased ::
  "('x, 'g, 'b) module \<Rightarrow> string \<Rightarrow> int \<Rightarrow> pyfloat \<Rightarrow> pyfloat \<Rightarrow> pyfloat \<Rightarrow> 'b world
   \<Rightarrow> pyfloat \<times> 'b world" where
  "save_if_decreased model save_path epoch train_loss valid_loss valid_loss_min w =
     (let w = emit (PrintEpoch epoch train_loss valid_loss) w
      in if fle valid_loss valid_loss_min
         then (let w = emit (PrintSaving valid_loss_min valid_loss) w;
                   w = torch_save (state_dict model w) save_path w
               in (valid_loss, w))
         else (valid_loss_min, w))"

fun train_epoch ::
  "'x loaders \<Rightarrow> ('x, 'g, 'b) module \<Rightarrow> optimizer \<Rightarrow> ('g out \<Rightarrow> nat list \<Rightarrow> loss) \<Rightarrow> bool
   \<Rightarrow> string \<Rightarrow> pyfloat \<times> 'b world \<Rightarrow> int \<Rightarrow> (error + pyfloat) \<times> 'b world" where
  "train_epoch loaders model optimizer criterion use_cuda save_path (valid_loss_min, w) epoch =
     (case epoch_losses loaders model optimizer criterion use_cuda w epoch of
        (Inl e, w) \<Rightarrow> (Inl e, w)
      | (Inr (train_loss, valid_loss), w) \<Rightarrow>
          (case save_if_decreased model save_path epoch train_loss valid_loss valid_loss_min w of
             (valid_loss_min, w) \<Rightarrow> (Inr valid_loss_min, w)))"

text \<open>
  \<open>for epoch in range(1, n_epochs+1)\<close>, as a recursion over the list of epochs; an exception
  ends the loop and leaves the world as it was when it was raised.
\<close>

fun train_loop ::
  "'x loaders \<Rightarrow> ('x, 'g, 'b) module \<Rightarrow> optimizer \<Rightarrow> ('g out \<Rightarrow> nat list \<Rightarrow> loss) \<Rightarrow> bool
   \<Rightarrow> string \<Rightarrow> pyfloat \<times> 'b world \<Rightarrow> int list \<Rightarrow> (error + pyfloat) \<times> 'b world" where
  "train_loop loaders model optimizer criterion use_cuda save_path (valid_loss_min, w) [] =
     (Inr valid_loss_min, w)"
| "train_loop loaders model optimizer criterion use_cuda save_path (valid_loss_min, w) (epoch # es) =
     (case train_epoch loaders model optimizer criterion use_cuda save_path (valid_loss_min, w) epoch of
        (Inl e, w) \<Rightarrow> (Inl e, w)
      | (Inr valid_loss_min, w) \<Rightarrow>
          train_loop loaders model optimizer criterion use_cuda save_path (valid_loss_min, w) es)"

text \<open>
  \<open>train(n_epochs, loaders, model, optimizer, criterion, use_cuda, save_path)\<close>: the running
  minimum starts at \<open>np.Inf\<close>, and the function returns the \<open>model\<close> it was given.
\<close>

definition train ::
  "int \<Rightarrow> 'x loaders \<Rightarrow> ('x, 'g, 'b) module \<Rightarrow> optimizer \<Rightarrow> ('g out \<Rightarrow> nat list \<Rightarrow> loss) \<Rightarrow> bool
   \<Rightarrow> string \<Rightarrow> 'b world \<Rightarrow> (error + ('x, 'g, 'b) module) \<times> 'b world" where
  "train n_epochs loaders model optimizer criterion use_cuda save_path w =
     (let valid_loss_min = PInf
      in case train_loop loaders model optimizer criterion use_cuda save_path (valid_loss_min, w)
                [1..n_epochs] of
           (Inl e, w) \<Rightarrow> (Inl e, w)
         | (Inr valid_loss_min, w) \<Rightarrow> (Inr model, w))"

section \<open>The test routine\<close>

text \<open>
  \<open>output.data.max(1, keepdim=True)[1]\<close>: for each row the index of its maximum, the first one
  when several entries are maximal; NaN counts as the largest value. A row without entries has
  no maximum and the call raises.
\<close>

definition beats :: "pyfloat \<Rightarrow> pyfloat \<Rightarrow> bool" where
  "beats x best = (if x = NaN then best \<noteq> NaN else flt best x)"

fun argmax_from :: "pyfloat \<Rightarrow> nat \<Rightarrow> nat \<Rightarrow> pyfloat list \<Rightarrow> nat" where
  "argmax_from best bi i [] = bi"
| "argmax_from best bi i (x # xs) =
     (if beats x best then argmax_from x i (Suc i) xs else argmax_from best bi (Suc i) xs)"

definition argmax :: "pyfloat list \<Rightarrow> error + nat" where
  "argmax row = (case row of [] \<Rightarrow> Inl RuntimeError | x # xs \<Rightarrow> Inr (argmax_from x 0 1 xs))"

fun max1 :: "pyfloat list list \<Rightarrow> error + nat list" where
  "max1 [] = Inr []"
| "max1 (row # rs) =
     (case argmax row of
        Inl e \<Rightarrow> Inl e
      | Inr i \<Rightarrow> (case max1 rs of Inl e \<Rightarrow> Inl e | Inr js \<Rightarrow> Inr (i # js)))"

text \<open>\<open>np.sum(np.squeeze(pred.eq(target.data.view_as(pred))).cpu().numpy())\<close>.\<close>

definition count_eq :: "nat list \<Rightarrow> nat list \<Rightarrow> nat" where
  "count_eq pred target = length (filter (\<lambda>(p, t). p = t) (zip pred target))"

text \<open>
  The loop over \<open>loaders['test']\<close>. \<open>correct\<close> and \<open>total\<close> are floats holding whole numbers in
  the source; \<open>view_as\<close> raises when the prediction and the target differ in size.
\<close>

fun test_loop ::
  "('x, 'g, 'b) module \<Rightarrow> ('g out \<Rightarrow> nat list \<Rightarrow> loss) \<Rightarrow> bool \<Rightarrow> pyfloat \<times> nat \<times> nat
   \<Rightarrow> 'b world \<Rightarrow> ('x \<times> nat) list list \<Rightarrow> (error + pyfloat \<times> nat \<times> nat) \<times> 'b world" where
  "test_loop model criterion use_cuda (test_loss, correct, total') w [] =
     (Inr (test_loss, correct, total'), w)"
| "test_loop model criterion use_cuda (test_loss, correct, total') w (batch # rest) =
     (let (xs, target) = (map fst batch, map snd batch);
          (xs, target) = (if use_cuda then (cuda xs, cuda target) else (xs, target));
          (output, w) = call model xs w;
          l = criterion output target;
          test_loss = fadd test_loss (fmul (item l) (Fin (real (length xs))))
      in case max1 (rows output) of
           Inl e \<Rightarrow> (Inl e, w)
         | Inr pred \<Rightarrow>
             if length pred \<noteq> length target then (Inl RuntimeError, w)
             else test_loop model criterion use_cuda
                    (test_loss, correct + count_eq pred target, total' + length xs) w rest)"

text \<open>
  \<open>test(loaders, model, criterion, use_cuda)\<close>. The accuracy line is
  \<open>'%2d%% (%2d/%2d)' % (100. * correct / total, correct, total)\<close>: \<open>%2d\<close> drops the fraction of
  the percentage. With no batch at all the division raises \<open>ZeroDivisionError\<close>; with batches
  that hold no sample \<open>correct\<close> is a numpy float, the quotient is NaN and \<open>%2d\<close> raises
  \<open>ValueError\<close>.
\<close>

definition test ::
  "'x loaders \<Rightarrow> ('x, 'g, 'b) module \<Rightarrow> ('g out \<Rightarrow> nat list \<Rightarrow> loss) \<Rightarrow> bool \<Rightarrow> 'b world
   \<Rightarrow> (error + unit) \<times> 'b world" where
  "test loaders model criterion use_cuda w =
     (case test_loop model criterion use_cuda (Fin 0, 0, 0) w (batches (test_loader loaders) 0) of
        (Inl e, w) \<Rightarrow> (Inl e, w)
      | (Inr (test_loss, correct, total'), w) \<Rightarrow>
          (case truediv_len test_loss (dataset_len (test_loader loaders)) of
             Inl e \<Rightarrow> (Inl e, w)
           | Inr test_loss \<Rightarrow>
               (let w = emit (PrintTestLoss test_loss) w
                in if total' = 0
                   then (Inl (if batches (test_loader loaders) 0 = [] then ZeroDivisionError
                              else ValueError), w)
                   else (Inr (),
                         emit (PrintTestAccuracy \<lfloor>100 * real correct / real total'\<rfloor>
                                 (int correct) (int total')) w))))"

section \<open>The model and optimizer cells of the transfer notebook\<close>

text \<open>
  \<open>torchvision.models.vgg16\<close> as the notebook prints it: thirteen convolutions in \<open>features\<close>
  (at positions 0, 2, 5, ...) and three linear layers in \<open>classifier\<close> (at 0, 3, 6), each with a
  weight and a bias tensor of its own. Tensors are numbered in the order of the print. The cell
  \<open>model_transfer.classifier[6] = nn.Linear(4096, num_classes)\<close> puts a new layer, with two new
  tensors, in the place of the last one. The forward function is left open.
\<close>

definition layer_names :: "string \<Rightarrow> string list \<Rightarrow> string list" where
  "layer_names sub positions =
     concat (map (\<lambda>i. [sub @ ''.'' @ i @ ''.weight'', sub @ ''.'' @ i @ ''.bias'']) positions)"

definition vgg16 :: "(heap \<Rightarrow> 'b \<Rightarrow> nat \<Rightarrow> 'x list \<Rightarrow> 'g out \<times> 'b) \<Rightarrow> ('x, 'g, 'b) module" where
  "vgg16 fwd =
     \<lparr>features = zip (layer_names ''features''
                        [''0'', ''2'', ''5'', ''7'', ''10'', ''12'', ''14'', ''17'', ''19'', ''21'',
                         ''24'', ''26'', ''28'']) [0..<26],
      classifier = zip (layer_names ''classifier'' [''0'', ''3'', ''6'']) [26..<32],
      forward = fwd\<rparr>"

definition model_transfer :: "(heap \<Rightarrow> 'b \<Rightarrow> nat \<Rightarrow> 'x list \<Rightarrow> 'g out \<times> 'b) \<Rightarrow> ('x, 'g, 'b) module" where
  "model_transfer fwd =
     (vgg16 fwd)\<lparr>classifier := take 4 (classifier (vgg16 fwd))
                                  @ zip (layer_names ''classifier'' [''6'']) [32..<34]\<rparr>"

text \<open>
  The transfer notebook: \<open>learning_rate = 0.01\<close>, the cell
  \<open>for param in model_transfer.features.parameters(): param.require_grad = False\<close>, and
  \<open>optimizer_transfer = optim.SGD(params=model_transfer.classifier.parameters(), lr=learning_rate)\<close>.
  The loop of the first cell stores an attribute named \<open>require_grad\<close> on each tensor.
\<close>

definition learning_rate :: pyfloat where
  "learning_rate = Fin (1 / 100)"

definition freeze_features :: "('x, 'g, 'b) module \<Rightarrow> 'b world \<Rightarrow> 'b world" where
  "freeze_features m w =
     w\<lparr>heap := foldl (\<lambda>h param. modify h param (\<lambda>t. t\<lparr>require_grad := Some False\<rparr>))
                   (heap w) (parameters (features m))\<rparr>"

definition optimizer_transfer :: "('x, 'g, 'b) module \<Rightarrow> optimizer" where
  "optimizer_transfer m = SGD (parameters (classifier m)) learning_rate"

section \<open>What a run shows\<close>

text \<open>
  The functions of this section are not in the notebooks. They name what the properties below
  talk about: the events a phase adds to the trace, the losses of the batches of an epoch, the
  validation loss and the parameters of each completed epoch.
\<close>

definition train_events :: "'x loaders \<Rightarrow> (nat \<times> ('x \<times> nat) list) list \<Rightarrow> event list" where
  "train_events L ibs =
     concat (map (\<lambda>(i, b). [ZeroGrad, Forward (length b), Backward, Step] @
                    (if i mod 200 = 0 then [PrintTrainingBatch i (len (train_loader L))] else [])) ibs)"

definition valid_events :: "'x loaders \<Rightarrow> (nat \<times> ('x \<times> nat) list) list \<Rightarrow> event list" where
  "valid_events L ibs =
     concat (map (\<lambda>(i, b). Forward (length b) #
                    (if i mod 200 = 0 then [PrintValidationBatch i (len (valid_loader L))] else [])) ibs)"

definition epoch_events :: "'x loaders \<Rightarrow> int \<Rightarrow> event list" where
  "epoch_events L e =
     train_events L (enumerate 0 (batches (train_loader L) (nat (e - 1))))
     @ valid_events L (enumerate 0 (batches (valid_loader L) (nat (e - 1))))"

text \<open>The loss of one batch in world \<open>w\<close>: \<open>criterion(model(data), target).item()\<close>.\<close>

definition batch_loss ::
  "('x, 'g, 'b) module \<Rightarrow> ('g out \<Rightarrow> nat list \<Rightarrow> loss) \<Rightarrow> 'b world \<Rightarrow> ('x \<times> nat) list \<Rightarrow> pyfloat" where
  "batch_loss M C w b = item (C (fst (call M (map fst b) w)) (map snd b))"

text \<open>
  The batches of a training pass, each with its loss and its sample count; the world moves on
  with every batch, as in the loop.
\<close>

fun train_losses ::
  "'x loaders \<Rightarrow> ('x, 'g, 'b) module \<Rightarrow> optimizer \<Rightarrow> ('g out \<Rightarrow> nat list \<Rightarrow> loss) \<Rightarrow> bool
   \<Rightarrow> 'b world \<Rightarrow> (nat \<times> ('x \<times> nat) list) list \<Rightarrow> (pyfloat \<times> nat) list" where
  "train_losses L M O' C u w [] = []"
| "train_losses L M O' C u w (ib # ibs) =
     (batch_loss M C (zero_grad O' w) (snd ib), length (snd ib))
       # train_losses L M O' C u (snd (train_step L M O' C u (Fin 0, w) ib)) ibs"

fun valid_losses ::
  "'x loaders \<Rightarrow> ('x, 'g, 'b) module \<Rightarrow> ('g out \<Rightarrow> nat list \<Rightarrow> loss) \<Rightarrow> bool
   \<Rightarrow> 'b world \<Rightarrow> (nat \<times> ('x \<times> nat) list) list \<Rightarrow> (pyfloat \<times> nat) list" where
  "valid_losses L M C u w [] = []"
| "valid_losses L M C u w (ib # ibs) =
     (batch_loss M C w (snd ib), length (snd ib))
       # valid_losses L M C u (snd (valid_step L M C u (Fin 0, w) ib)) ibs"

definition epoch_train_losses ::
  "'x loaders \<Rightarrow> ('x, 'g, 'b) module \<Rightarrow> optimizer \<Rightarrow> ('g out \<Rightarrow> nat list \<Rightarrow> loss) \<Rightarrow> bool
   \<Rightarrow> 'b world \<Rightarrow> int \<Rightarrow> (pyfloat \<times> nat) list" where
  "epoch_train_losses L M O' C u w e =
     train_losses L M O' C u w (enumerate 0 (batches (train_loader L) (nat (e - 1))))"

definition epoch_valid_losses ::
  "'x loaders \<Rightarrow> ('x, 'g, 'b) module \<Rightarrow> optimizer \<Rightarrow> ('g out \<Rightarrow> nat list \<Rightarrow> loss) \<Rightarrow> bool
   \<Rightarrow> 'b world \<Rightarrow> int \<Rightarrow> (pyfloat \<times> nat) list" where
  "epoch_valid_losses L M O' C u w e =
     valid_losses L M C u (snd (train_phase L M O' C u (nat (e - 1)) w))
       (enumerate 0 (batches (valid_loader L) (nat (e - 1))))"

text \<open>The sum of loss times sample count, added up from \<open>0.0\<close> in the order of the batches.\<close>

definition weighted_sum :: "(pyfloat \<times> nat) list \<Rightarrow> pyfloat" where
  "weighted_sum ls = foldl (\<lambda>s (l, n). fadd s (fmul l (Fin (real n)))) (Fin 0) ls"

fun is_fin :: "pyfloat \<Rightarrow> bool" where
  "is_fin (Fin a) = True"
| "is_fin x = False"

fun the_fin :: "pyfloat \<Rightarrow> real" where
  "the_fin (Fin a) = a"
| "the_fin x = 0"

definition mean_of :: "(pyfloat \<times> nat) list \<Rightarrow> nat \<Rightarrow> real" where
  "mean_of ls n = (\<Sum>(l, k)\<leftarrow>ls. the_fin l * real k) / real n"

text \<open>
  For each epoch a run completes: its mean validation loss and the parameters of the model at
  its end. \<open>keep\<close> is the choice a reader of that list makes who keeps the entry that is at
  most the minimum so far.
\<close>

fun epoch_log ::
  "'x loaders \<Rightarrow> ('x, 'g, 'b) module \<Rightarrow> optimizer \<Rightarrow> ('g out \<Rightarrow> nat list \<Rightarrow> loss) \<Rightarrow> bool
   \<Rightarrow> string \<Rightarrow> pyfloat \<times> 'b world \<Rightarrow> int list \<Rightarrow> (pyfloat \<times> 'b state_dict) list" where
  "epoch_log L M O' C u p (vmin, w) [] = []"
| "epoch_log L M O' C u p (vmin, w) (e # es) =
     (case epoch_losses L M O' C u w e of
        (Inl err, w1) \<Rightarrow> []
      | (Inr (trl, val), w1) \<Rightarrow>
          (val, state_dict M w1)
            # epoch_log L M O' C u p (save_if_decreased M p e trl val vmin w1) es)"

fun keep ::
  "pyfloat \<times> 'b state_dict option \<Rightarrow> pyfloat \<times> 'b state_dict \<Rightarrow> pyfloat \<times> 'b state_dict option" where
  "keep (m, f) (v, sd) = (if fle v m then (v, Some sd) else (m, f))"

text \<open>
  The order of the logits: \<open>no_larger x y\<close> says that \<open>x\<close> is at most \<open>y\<close>, with NaN above every
  number. \<open>top1 row t\<close> says that \<open>t\<close> is the class the row predicts: a position of the row, no
  entry of the row is larger than the entry at \<open>t\<close>, and every entry before \<open>t\<close> is smaller.
\<close>

definition no_larger :: "pyfloat \<Rightarrow> pyfloat \<Rightarrow> bool" where
  "no_larger x y = (y = NaN \<or> fle x y)"

definition top1 :: "pyfloat list \<Rightarrow> nat \<Rightarrow> bool" where
  "top1 row t =
     (t < length row \<and> list_all (\<lambda>x. no_larger x (row ! t)) row
      \<and> list_all (\<lambda>x. \<not> no_larger (row ! t) x) (take t row))"

text \<open>
  For each batch of a test pass: the logits, the labels and the loss. A sample counts as
  correct when its label is the class its row of logits predicts.
\<close>

fun test_log ::
  "('x, 'g, 'b) module \<Rightarrow> ('g out \<Rightarrow> nat list \<Rightarrow> loss) \<Rightarrow> 'b world \<Rightarrow> ('x \<times> nat) list list
   \<Rightarrow> (pyfloat list list \<times> nat list \<times> pyfloat) list" where
  "test_log M C w [] = []"
| "test_log M C w (b # bs) =
     (rows (fst (call M (map fst b) w)), map snd b, batch_loss M C w b)
       # test_log M C (snd (call M (map fst b) w)) bs"

definition n_correct :: "pyfloat list list \<Rightarrow> nat list \<Rightarrow> nat" where
  "n_correct rs target = length (filter (\<lambda>(row, t). top1 row t) (zip rs target))"

definition test_correct :: "(pyfloat list list \<times> nat list \<times> pyfloat) list \<Rightarrow> nat" where
  "test_correct lg = (\<Sum>(rs, target, l)\<leftarrow>lg. n_correct rs target)"

definition test_total :: "(pyfloat list list \<times> nat list \<times> pyfloat) list \<Rightarrow> nat" where
  "test_total lg = (\<Sum>(rs, target, l)\<leftarrow>lg. length target)"

definition test_losses :: "(pyfloat list list \<times> nat list \<times> pyfloat) list \<Rightarrow> (pyfloat \<times> nat) list" where
  "test_losses lg = map (\<lambda>(rs, target, l). (l, length target)) lg"

definition test_events :: "(pyfloat list list \<times> nat list \<times> pyfloat) list \<Rightarrow> event list" where
  "test_events lg = map (\<lambda>(rs, target, l). Forward (length target)) lg"

text \<open>Two heaps with the same tensors allocated and, outside \<open>S\<close>, the same data in each.\<close>

definition same_data_off :: "nat set \<Rightarrow> heap \<Rightarrow> heap \<Rightarrow> bool" where
  "same_data_off S h h' =
     (dom h' = dom h \<and> (\<forall>r. r \<notin> S \<longrightarrow> map_option data (h' r) = map_option data (h r)))"

section \<open>A small network to run\<close>

text \<open>
  A network with one weight and one bias in each sub-module, on scalar samples and two classes:
  the logit of class 0 comes from the feature tensors, the logit of class 1 from the classifier
  tensors. Its criterion adds up the class-1 logits and sends gradient 1 to all four tensors.
  The buffer counts the samples seen.
\<close>

definition toy_val :: "heap \<Rightarrow> nat \<Rightarrow> pyfloat" where
  "toy_val h r = (case h r of Some t \<Rightarrow> (case data t of v # _ \<Rightarrow> v | [] \<Rightarrow> Fin 0) | None \<Rightarrow> Fin 0)"

definition toy_forward :: "heap \<Rightarrow> nat \<Rightarrow> nat \<Rightarrow> pyfloat list \<Rightarrow> unit out \<times> nat" where
  "toy_forward h b k xs =
     (Output (map (\<lambda>x. [fadd (fmul (toy_val h 0) x) (toy_val h 1),
                         fadd (fmul (toy_val h 2) x) (toy_val h 3)]) xs) (),
      b + length xs)"

definition toy_model :: "(pyfloat, unit, nat) module" where
  "toy_model = \<lparr>features = [(''features.0.weight'', 0), (''features.0.bias'', 1)],
                classifier = [(''classifier.6.weight'', 2), (''classifier.6.bias'', 3)],
                forward = toy_forward\<rparr>"

definition toy_criterion :: "unit out \<Rightarrow> nat list \<Rightarrow> loss" where
  "toy_criterion outp target =
     Loss (foldl fadd (Fin 0) (map (\<lambda>row. case row of [a, b] \<Rightarrow> b | _ \<Rightarrow> Fin 0) (rows outp)))
          [(0, [Fin 1]), (1, [Fin 1]), (2, [Fin 1]), (3, [Fin 1])]"

definition toy_tensor :: "real \<Rightarrow> tensor" where
  "toy_tensor a = \<lparr>data = [Fin a], grad = None, requires_grad = True, require_grad = None\<rparr>"

definition toy_world :: "nat world" where
  "toy_world = \<lparr>heap = [0 \<mapsto> toy_tensor 1, 1 \<mapsto> toy_tensor 0, 2 \<mapsto> toy_tensor 1, 3 \<mapsto> toy_tensor 0],
                buffers = 0, rng = 0, files = Map.empty, trace = []\<rparr>"

text \<open>
  Loaders whose validation pass changes after the first epoch, loaders whose validation pass is
  the same in every epoch, and loaders whose validation sample is NaN (so is every logit and
  the loss computed from it).
\<close>

definition toy_loaders :: "pyfloat loaders" where
  "toy_loaders =
     \<lparr>train_loader = \<lparr>batches = (\<lambda>k. [[(Fin 1, 1), (Fin 2, 0)], [(Fin 3, 1)]]), len = 2, dataset_len = 3\<rparr>,
      valid_loader = \<lparr>batches = (\<lambda>k. if k = 0 then [[(Fin 1, 1), (Fin 1, 0)]]
                                       else [[(Fin (- 5), 1), (Fin (- 5), 0)]]),
                      len = 1, dataset_len = 2\<rparr>,
      test_loader = \<lparr>batches = (\<lambda>k. [[(Fin 1, 1), (Fin 2, 0)], [(Fin (- 3), 0)]]), len = 2, dataset_len = 3\<rparr>\<rparr>"

definition same_loaders :: "pyfloat loaders" where
  "same_loaders =
     toy_loaders\<lparr>valid_loader := \<lparr>batches = (\<lambda>k. [[(Fin 1, 1), (Fin 1, 0)]]), len = 1, dataset_len = 2\<rparr>\<rparr>"

definition nan_loaders :: "pyfloat loaders" where
  "nan_loaders = toy_loaders\<lparr>valid_loader := \<lparr>batches = (\<lambda>k. [[(NaN, 1)]]), len = 1, dataset_len = 1\<rparr>\<rparr>"

text \<open>
  An optimizer over the classifier tensors, and one over all tensors with learning rate 0, under
  which no parameter moves.
\<close>

definition toy_optimizer :: optimizer where
  "toy_optimizer = SGD (parameters (classifier toy_model)) (Fin (1 / 2))"

definition still_optimizer :: optimizer where
  "still_optimizer = SGD (parameters (named_parameters toy_model)) (Fin 0)"

text \<open>
  A world in which the classifier weight is 2, so that the logits of a sample \<open>x\<close> are \<open>x\<close> and
  \<open>2 * x\<close>, and a test set for it: the largest logit is at class 1 for the first sample and at
  class 0 for the second and the fourth, and the two logits of the third are equal.
\<close>

definition sharp_world :: "nat world" where
  "sharp_world = toy_world\<lparr>heap := (heap toy_world)(2 \<mapsto> toy_tensor 2)\<rparr>"

definition sharp_loaders :: "pyfloat loaders" where
  "sharp_loaders =
     toy_loaders\<lparr>test_loader := \<lparr>batches = (\<lambda>k. [[(Fin 1, 1), (Fin (- 3), 0)], [(Fin 0, 0), (Fin (- 1), 1)]]),
                                  len = 2, dataset_len = 4\<rparr>\<rparr>"

text \<open>A world in which a file of an earlier run lies at the checkpoint path.\<close>

definition stale_dict :: "nat state_dict" where
  "stale_dict = ([(''features.0.weight'', [Fin 9]), (''features.0.bias'', [Fin 9]),
                  (''classifier.6.weight'', [Fin 9]), (''classifier.6.bias'', [Fin 9])], 0)"

definition stale_world :: "nat world" where
  "stale_world = toy_world\<lparr>files := [''toy.pt'' \<mapsto> stale_dict]\<rparr>"

text \<open>The worlds of the run of the small network: after \<open>j\<close> epochs, and in epoch \<open>j\<close> before its end.\<close>

definition toy_after :: "int \<Rightarrow> nat world" where
  "toy_after j = snd (train_loop toy_loaders toy_model toy_optimizer toy_criterion False ''toy.pt''
                        (PInf, toy_world) [1..j])"

definition toy_mid :: "int \<Rightarrow> nat world" where
  "toy_mid j = snd (epoch_losses toy_loaders toy_model toy_optimizer toy_criterion False
                      (toy_after (j - 1)) j)"

definition still_after :: "int \<Rightarrow> nat world" where
  "still_after j = snd (train_loop same_loaders toy_model still_optimizer toy_criterion False ''toy.pt''
                          (PInf, toy_world) [1..j])"

definition still_mid :: "int \<Rightarrow> nat world" where
  "still_mid j = snd (epoch_losses same_loaders toy_model still_optimizer toy_criterion False
                        (still_after (j - 1)) j)"

section \<open>Properties\<close>

declare train_step.simps [simp del] valid_step.simps [simp del] train_epoch.simps [simp del]
  test_loop.simps [simp del] keep.simps [simp del]

subsection \<open>Floats\<close>

lemma fle_NaN [simp]: "\<not> fle x NaN" "\<not> fle NaN x"
  by (cases x; simp)+

lemma fle_PInf [simp]: "fle x PInf = (x \<noteq> NaN)"
  by (cases x) simp_all

lemma fle_trans: "fle x y \<Longrightarrow> fle y z \<Longrightarrow> fle x z"
  by (cases x; cases y; cases z) simp_all

lemma fle_total: "x \<noteq> NaN \<Longrightarrow> y \<noteq> NaN \<Longrightarrow> \<not> fle x y \<Longrightarrow> fle y x"
  by (cases x; cases y) simp_all

lemma fle_refl: "x \<noteq> NaN \<Longrightarrow> fle x x"
  by (cases x) simp_all

lemma fle_not_NaN: "fle x y \<Longrightarrow> x \<noteq> NaN \<and> y \<noteq> NaN"
  by (cases x; cases y) simp_all

lemma flt_fle: "flt x y \<Longrightarrow> fle x y"
  by (cases x; cases y) simp_all

lemma fle_iff: "fle x y = (flt x y \<or> (x = y \<and> x \<noteq> NaN))"
  by (cases x; cases y) auto

lemma flt_irrefl: "\<not> flt x x"
  by (cases x) simp_all

lemma truediv_len_fin: "truediv_len (Fin a) n = Inr x \<Longrightarrow> x = Fin (a / real n)"
  by (auto simp: truediv_len_def split: if_splits)

subsection \<open>What each framework call touches\<close>

lemma emit_frame [simp]:
  "trace (emit e w) = trace w @ [e]" "heap (emit e w) = heap w" "files (emit e w) = files w"
  "buffers (emit e w) = buffers w" "rng (emit e w) = rng w"
  by (simp_all add: emit_def)

lemma modify_other: "r' \<noteq> r \<Longrightarrow> modify h r f r' = h r'"
  by (simp add: modify_def split: option.splits)

lemma modify_data:
  "(\<And>t. data (f t) = data t) \<Longrightarrow> map_option data (modify h r f r') = map_option data (h r')"
  by (simp add: modify_def split: option.splits)

lemma dom_modify: "dom (modify h r f) = dom h"
  by (auto simp: modify_def split: option.splits if_splits)

lemma foldl_modify_other:
  "r' \<notin> set rs \<Longrightarrow> foldl (\<lambda>h r. modify h r (f r)) h rs r' = h r'"
  by (induction rs arbitrary: h) (auto simp: modify_other)

lemma foldl_modify_data:
  "(\<And>r t. data (f r t) = data t) \<Longrightarrow>
   map_option data (foldl (\<lambda>h r. modify h r (f r)) h rs r') = map_option data (h r')"
  by (induction rs arbitrary: h) (auto simp: modify_data)

lemma dom_foldl_modify: "dom (foldl (\<lambda>h r. modify h r (f r)) h rs) = dom h"
  by (induction rs arbitrary: h) (auto simp: dom_modify)

lemma zero_grad_frame:
  "files (zero_grad opt w) = files w" "buffers (zero_grad opt w) = buffers w"
  "rng (zero_grad opt w) = rng w" "trace (zero_grad opt w) = trace w @ [ZeroGrad]"
  "dom (heap (zero_grad opt w)) = dom (heap w)"
  "map_option data (heap (zero_grad opt w) r) = map_option data (heap w r)"
  by (simp_all add: zero_grad_def dom_foldl_modify foldl_modify_data)

lemma call_frame:
  "call m xs w = (outp, w') \<Longrightarrow>
   heap w' = heap w \<and> files w' = files w \<and> trace w' = trace w @ [Forward (length xs)]"
  by (auto simp: call_def Let_def split: prod.splits)

lemma call_snd [simp]:
  "heap (snd (call m xs w)) = heap w" "files (snd (call m xs w)) = files w"
  "trace (snd (call m xs w)) = trace w @ [Forward (length xs)]"
  by (simp_all add: call_def Let_def split: prod.splits)

lemma dom_backward_heap: "dom (foldl (\<lambda>h (r, g). modify h r (F g)) h lg) = dom h"
proof (induction lg arbitrary: h)
  case Nil
  show ?case by simp
next
  case (Cons x lg)
  obtain r g where "x = (r, g)" by (cases x)
  with Cons.IH[of "modify h r (F g)"] show ?case by (simp add: dom_modify)
qed

lemma data_backward_heap:
  assumes "\<And>g t. data (F g t) = data t"
  shows "map_option data (foldl (\<lambda>h (r, g). modify h r (F g)) h lg r') = map_option data (h r')"
proof (induction lg arbitrary: h)
  case Nil
  show ?case by simp
next
  case (Cons x lg)
  obtain r g where "x = (r, g)" by (cases x)
  with Cons.IH[of "modify h r (F g)"] assms show ?case by (simp add: modify_data)
qed

lemma backward_frame:
  "files (backward l w) = files w" "buffers (backward l w) = buffers w"
  "rng (backward l w) = rng w" "trace (backward l w) = trace w @ [Backward]"
  "dom (heap (backward l w)) = dom (heap w)"
  "map_option data (heap (backward l w) r) = map_option data (heap w r)"
  by (simp_all add: backward_def dom_backward_heap data_backward_heap)

lemma step_frame:
  "files (step opt w) = files w" "buffers (step opt w) = buffers w"
  "rng (step opt w) = rng w" "trace (step opt w) = trace w @ [Step]"
  "dom (heap (step opt w)) = dom (heap w)"
  "r \<notin> set (param_groups opt) \<Longrightarrow> heap (step opt w) r = heap w r"
  by (simp_all add: step_def dom_foldl_modify foldl_modify_other)

lemma torch_save_frame:
  "heap (torch_save sd p w) = heap w" "buffers (torch_save sd p w) = buffers w"
  "files (torch_save sd p w) = (files w)(p \<mapsto> sd)"
  "trace (torch_save sd p w) = trace w @ [TorchSave p]"
  by (simp_all add: torch_save_def)

lemma freeze_features_no_effect:
  "map_option requires_grad (heap (freeze_features m w) r) = map_option requires_grad (heap w r)"
  "map_option data (heap (freeze_features m w) r) = map_option data (heap w r)"
  "map_option grad (heap (freeze_features m w) r) = map_option grad (heap w r)"
proof -
  have "map_option requires_grad
          (foldl (\<lambda>h param. modify h param (\<lambda>t. t\<lparr>require_grad := Some False\<rparr>)) h rs r)
          = map_option requires_grad (h r)
      \<and> map_option data
          (foldl (\<lambda>h param. modify h param (\<lambda>t. t\<lparr>require_grad := Some False\<rparr>)) h rs r)
          = map_option data (h r)
      \<and> map_option grad
          (foldl (\<lambda>h param. modify h param (\<lambda>t. t\<lparr>require_grad := Some False\<rparr>)) h rs r)
          = map_option grad (h r)" for h rs
    by (induction rs arbitrary: h) (auto simp: modify_def split: option.splits)
  then show
    "map_option requires_grad (heap (freeze_features m w) r) = map_option requires_grad (heap w r)"
    "map_option data (heap (freeze_features m w) r) = map_option data (heap w r)"
    "map_option grad (heap (freeze_features m w) r) = map_option grad (heap w r)"
    by (simp_all add: freeze_features_def)
qed

lemma same_data_off_refl: "same_data_off S h h"
  by (simp add: same_data_off_def)

lemma same_data_off_trans:
  "same_data_off S h h1 \<Longrightarrow> same_data_off S h1 h2 \<Longrightarrow> same_data_off S h h2"
  by (simp add: same_data_off_def)

subsection \<open>The two loops over batches\<close>

lemma train_step_eq:
  "train_step L M O' C u (acc, w) (i, b) =
     (fadd acc (fmul (batch_loss M C (zero_grad O' w) b) (Fin (real (length b)))),
      snd (train_step L M O' C u (Fin 0, w) (i, b)))"
proof -
  obtain outp w2 where c: "call M (map fst b) (zero_grad O' w) = (outp, w2)"
    by (cases "call M (map fst b) (zero_grad O' w)")
  show ?thesis
    by (simp add: train_step.simps batch_loss_def cuda_def c Let_def)
qed

lemma valid_step_eq:
  "valid_step L M C u (acc, w) (i, b) =
     (fadd acc (fmul (batch_loss M C w b) (Fin (real (length b)))),
      snd (valid_step L M C u (Fin 0, w) (i, b)))"
proof -
  obtain outp w2 where c: "call M (map fst b) w = (outp, w2)"
    by (cases "call M (map fst b) w")
  show ?thesis
    by (simp add: valid_step.simps batch_loss_def cuda_def c Let_def)
qed

lemma foldl_train_step:
  "foldl (train_step L M O' C u) (acc, w) ibs =
     (foldl (\<lambda>s (l, n). fadd s (fmul l (Fin (real n)))) acc (train_losses L M O' C u w ibs),
      snd (foldl (train_step L M O' C u) (Fin 0, w) ibs))"
proof (induction ibs arbitrary: acc w)
  case Nil
  show ?case by simp
next
  case (Cons ib ibs)
  obtain i b where ib: "ib = (i, b)" by (cases ib)
  define w1 where "w1 = snd (train_step L M O' C u (Fin 0, w) (i, b))"
  define l where "l = fmul (batch_loss M C (zero_grad O' w) b) (Fin (real (length b)))"
  have eq: "train_step L M O' C u (a, w) (i, b) = (fadd a l, w1)" for a
    unfolding w1_def l_def by (rule train_step_eq)
  have tl: "train_losses L M O' C u w ((i, b) # ibs) =
      (batch_loss M C (zero_grad O' w) b, length b) # train_losses L M O' C u w1 ibs"
    by (simp add: w1_def)
  show ?case
    using Cons.IH[of "fadd acc l" w1] Cons.IH[of "fadd (Fin 0) l" w1]
    by (simp add: ib eq tl l_def del: train_losses.simps)
qed

lemma foldl_valid_step:
  "foldl (valid_step L M C u) (acc, w) ibs =
     (foldl (\<lambda>s (l, n). fadd s (fmul l (Fin (real n)))) acc (valid_losses L M C u w ibs),
      snd (foldl (valid_step L M C u) (Fin 0, w) ibs))"
proof (induction ibs arbitrary: acc w)
  case Nil
  show ?case by simp
next
  case (Cons ib ibs)
  obtain i b where ib: "ib = (i, b)" by (cases ib)
  define w1 where "w1 = snd (valid_step L M C u (Fin 0, w) (i, b))"
  define l where "l = fmul (batch_loss M C w b) (Fin (real (length b)))"
  have eq: "valid_step L M C u (a, w) (i, b) = (fadd a l, w1)" for a
    unfolding w1_def l_def by (rule valid_step_eq)
  have tl: "valid_losses L M C u w ((i, b) # ibs) =
      (batch_loss M C w b, length b) # valid_losses L M C u w1 ibs"
    by (simp add: w1_def)
  show ?case
    using Cons.IH[of "fadd acc l" w1] Cons.IH[of "fadd (Fin 0) l" w1]
    by (simp add: ib eq tl l_def del: valid_losses.simps)
qed

lemma train_phase_loss:
  "fst (train_phase L M O' C u k w) =
     weighted_sum (train_losses L M O' C u w (enumerate 0 (batches (train_loader L) k)))"
  unfolding train_phase_def weighted_sum_def by (subst foldl_train_step) simp

lemma valid_phase_loss:
  "fst (valid_phase L M C u k w) =
     weighted_sum (valid_losses L M C u w (enumerate 0 (batches (valid_loader L) k)))"
  unfolding valid_phase_def weighted_sum_def by (subst foldl_valid_step) simp

lemma foldl_weighted_fin:
  "list_all (\<lambda>(l, n). is_fin l) ls \<Longrightarrow>
   foldl (\<lambda>s (l, n). fadd s (fmul l (Fin (real n)))) (Fin a) ls =
     Fin (a + (\<Sum>(l, n)\<leftarrow>ls. the_fin l * real n))"
proof (induction ls arbitrary: a)
  case Nil
  show ?case by simp
next
  case (Cons x ls)
  obtain l n where x: "x = (l, n)" by (cases x)
  with Cons.prems obtain b where l: "l = Fin b" by (cases l) auto
  from Cons.prems have "list_all (\<lambda>(l, n). is_fin l) ls" by simp
  from Cons.IH[OF this, of "a + b * real n"] show ?case
    by (simp add: x l add.assoc)
qed

lemma weighted_sum_fin:
  "list_all (\<lambda>(l, n). is_fin l) ls \<Longrightarrow>
   weighted_sum ls = Fin (\<Sum>(l, n)\<leftarrow>ls. the_fin l * real n)"
  using foldl_weighted_fin[of ls 0] by (simp add: weighted_sum_def)

lemma valid_step_frame:
  assumes "valid_step L M C u (acc, w) (i, b) = (acc', w')"
  shows "heap w' = heap w" "files w' = files w" "buffers w' = buffers (snd (call M (map fst b) w))"
    "trace w' = trace w @ Forward (length b) #
        (if i mod 200 = 0 then [PrintValidationBatch i (len (valid_loader L))] else [])"
proof -
  obtain outp w2 where c: "call M (map fst b) w = (outp, w2)"
    by (cases "call M (map fst b) w")
  have "snd (valid_step L M C u (acc, w) (i, b)) =
      (if i mod 200 = 0 then emit (PrintValidationBatch i (len (valid_loader L))) w2 else w2)"
    by (simp add: valid_step.simps cuda_def c Let_def)
  with assms have w': "w' = (if i mod 200 = 0 then emit (PrintValidationBatch i (len (valid_loader L))) w2 else w2)"
    by simp
  from call_frame[OF c] show "heap w' = heap w" "files w' = files w"
    "buffers w' = buffers (snd (call M (map fst b) w))"
    "trace w' = trace w @ Forward (length b) #
        (if i mod 200 = 0 then [PrintValidationBatch i (len (valid_loader L))] else [])"
    by (simp_all add: w' c)
qed

lemma foldl_valid_step_frame:
  "foldl (valid_step L M C u) (acc, w) ibs = (acc', w') \<Longrightarrow>
   heap w' = heap w \<and> files w' = files w \<and> trace w' = trace w @ valid_events L ibs"
proof (induction ibs arbitrary: acc w)
  case Nil
  then show ?case by (simp add: valid_events_def)
next
  case (Cons ib ibs)
  obtain i b where ib: "ib = (i, b)" by (cases ib)
  obtain a1 w1 where s: "valid_step L M C u (acc, w) (i, b) = (a1, w1)"
    by (cases "valid_step L M C u (acc, w) (i, b)")
  from Cons.prems have "foldl (valid_step L M C u) (a1, w1) ibs = (acc', w')"
    by (simp add: ib s)
  from Cons.IH[OF this] valid_step_frame[OF s] show ?case
    by (simp add: ib valid_events_def)
qed

lemma valid_phase_frame:
  "heap (snd (valid_phase L M C u k w)) = heap w"
  "files (snd (valid_phase L M C u k w)) = files w"
  "trace (snd (valid_phase L M C u k w)) =
     trace w @ valid_events L (enumerate 0 (batches (valid_loader L) k))"
  using foldl_valid_step_frame[of L M C u "Fin 0" w "enumerate 0 (batches (valid_loader L) k)"
      "fst (valid_phase L M C u k w)" "snd (valid_phase L M C u k w)"]
  by (simp_all add: valid_phase_def)

lemma train_step_frame:
  assumes "train_step L M O' C u (acc, w) (i, b) = (acc', w')"
  shows "files w' = files w"
    and "same_data_off (set (param_groups O')) (heap w) (heap w')"
    and "trace w' = trace w @ [ZeroGrad, Forward (length b), Backward, Step] @
        (if i mod 200 = 0 then [PrintTrainingBatch i (len (train_loader L))] else [])"
proof -
  obtain outp w2 where c: "call M (map fst b) (zero_grad O' w) = (outp, w2)"
    by (cases "call M (map fst b) (zero_grad O' w)")
  define l where "l = C outp (map snd b)"
  define w4 where "w4 = step O' (backward l w2)"
  have "snd (train_step L M O' C u (acc, w) (i, b)) =
      (if i mod 200 = 0 then emit (PrintTrainingBatch i (len (train_loader L))) w4 else w4)"
    by (simp add: train_step.simps cuda_def c Let_def l_def w4_def)
  with assms have w': "w' = (if i mod 200 = 0 then emit (PrintTrainingBatch i (len (train_loader L))) w4 else w4)"
    by simp
  from call_frame[OF c] have w2: "heap w2 = heap (zero_grad O' w)" "files w2 = files w"
    "trace w2 = trace w @ [ZeroGrad, Forward (length b)]"
    by (simp_all add: zero_grad_frame)
  show "files w' = files w"
    by (simp add: w' w4_def step_frame backward_frame w2)
  show "trace w' = trace w @ [ZeroGrad, Forward (length b), Backward, Step] @
        (if i mod 200 = 0 then [PrintTrainingBatch i (len (train_loader L))] else [])"
    by (simp add: w' w4_def step_frame backward_frame w2)
  have "dom (heap w4) = dom (heap w)"
    by (simp add: w4_def step_frame backward_frame w2 zero_grad_frame)
  moreover have "map_option data (heap w4 r) = map_option data (heap w r)"
    if "r \<notin> set (param_groups O')" for r
    using that by (simp add: w4_def step_frame backward_frame w2 zero_grad_frame)
  ultimately show "same_data_off (set (param_groups O')) (heap w) (heap w')"
    by (simp add: w' same_data_off_def)
qed

lemma foldl_train_step_frame:
  "foldl (train_step L M O' C u) (acc, w) ibs = (acc', w') \<Longrightarrow>
   files w' = files w \<and> same_data_off (set (param_groups O')) (heap w) (heap w')
   \<and> trace w' = trace w @ train_events L ibs"
proof (induction ibs arbitrary: acc w)
  case Nil
  then show ?case by (simp add: train_events_def same_data_off_refl)
next
  case (Cons ib ibs)
  obtain i b where ib: "ib = (i, b)" by (cases ib)
  obtain a1 w1 where s: "train_step L M O' C u (acc, w) (i, b) = (a1, w1)"
    by (cases "train_step L M O' C u (acc, w) (i, b)")
  from Cons.prems have "foldl (train_step L M O' C u) (a1, w1) ibs = (acc', w')"
    by (simp add: ib s)
  from Cons.IH[OF this] train_step_frame[OF s] show ?case
    by (auto simp: ib train_events_def intro: same_data_off_trans)
qed

lemma train_phase_frame:
  "files (snd (train_phase L M O' C u k w)) = files w"
  "same_data_off (set (param_groups O')) (heap w) (heap (snd (train_phase L M O' C u k w)))"
  "trace (snd (train_phase L M O' C u k w)) =
     trace w @ train_events L (enumerate 0 (batches (train_loader L) k))"
  using foldl_train_step_frame[of L M O' C u "Fin 0" w "enumerate 0 (batches (train_loader L) k)"
      "fst (train_phase L M O' C u k w)" "snd (train_phase L M O' C u k w)"]
  by (simp_all add: train_phase_def)

subsection \<open>One epoch\<close>

lemma epoch_losses_ok:
  assumes "epoch_losses L M O' C u w e = (Inr (trl, val), w1)"
  shows "truediv_len (fst (train_phase L M O' C u (nat (e - 1)) w)) (dataset_len (train_loader L)) = Inr trl"
    and "truediv_len (fst (valid_phase L M C u (nat (e - 1)) (snd (train_phase L M O' C u (nat (e - 1)) w))))
           (dataset_len (valid_loader L)) = Inr val"
  using assms
  by (auto simp: epoch_losses_def Let_def split: prod.splits sum.splits)

lemma epoch_losses_world:
  "snd (epoch_losses L M O' C u w e) =
     snd (valid_phase L M C u (nat (e - 1)) (snd (train_phase L M O' C u (nat (e - 1)) w)))"
  by (auto simp: epoch_losses_def Let_def split: prod.splits sum.splits)

lemma epoch_losses_frame:
  "files (snd (epoch_losses L M O' C u w e)) = files w"
  "same_data_off (set (param_groups O')) (heap w) (heap (snd (epoch_losses L M O' C u w e)))"
  "trace (snd (epoch_losses L M O' C u w e)) = trace w @ epoch_events L e"
  by (simp_all add: epoch_losses_world valid_phase_frame train_phase_frame epoch_events_def)

lemma save_if_decreased_eq:
  "save_if_decreased M p e trl val vmin w = (m', w') \<Longrightarrow>
   m' = (if fle val vmin then val else vmin) \<and> heap w' = heap w \<and> buffers w' = buffers w
   \<and> files w' = (if fle val vmin then (files w)(p \<mapsto> state_dict M w) else files w)
   \<and> trace w' = trace w @ PrintEpoch e trl val #
        (if fle val vmin then [PrintSaving vmin val, TorchSave p] else [])"
  by (auto simp: save_if_decreased_def Let_def torch_save_frame state_dict_def split: if_splits)

lemma save_if_decreased_snd:
  "heap (snd (save_if_decreased M p e trl val vmin w)) = heap w"
  "q \<noteq> p \<Longrightarrow> files (snd (save_if_decreased M p e trl val vmin w)) q = files w q"
  using save_if_decreased_eq[of M p e trl val vmin w
      "fst (save_if_decreased M p e trl val vmin w)" "snd (save_if_decreased M p e trl val vmin w)"]
  by simp_all

lemma train_epoch_eq:
  "epoch_losses L M O' C u w e = (Inr (trl, val), w1) \<Longrightarrow>
   train_epoch L M O' C u p (vmin, w) e =
     (Inr (fst (save_if_decreased M p e trl val vmin w1)), snd (save_if_decreased M p e trl val vmin w1))"
  by (simp add: train_epoch.simps split: prod.splits)

lemma train_epoch_err:
  "epoch_losses L M O' C u w e = (Inl err, w1) \<Longrightarrow>
   train_epoch L M O' C u p (vmin, w) e = (Inl err, w1)"
  by (simp add: train_epoch.simps)

lemma train_epoch_frame:
  "q \<noteq> p \<Longrightarrow> files (snd (train_epoch L M O' C u p (vmin, w) e)) q = files w q"
  "same_data_off (set (param_groups O')) (heap w) (heap (snd (train_epoch L M O' C u p (vmin, w) e)))"
proof -
  obtain r w1 where el: "epoch_losses L M O' C u w e = (r, w1)"
    by (cases "epoch_losses L M O' C u w e")
  have f: "files w1 = files w" "same_data_off (set (param_groups O')) (heap w) (heap w1)"
    using epoch_losses_frame(1,2)[where L = L and M = M and O' = O' and C = C and u = u
        and w = w and e = e] el by simp_all
  show "files (snd (train_epoch L M O' C u p (vmin, w) e)) q = files w q" if "q \<noteq> p"
  proof (cases r)
    case (Inl err)
    with el f show ?thesis by (simp add: train_epoch_err)
  next
    case (Inr tv)
    then obtain trl val where "epoch_losses L M O' C u w e = (Inr (trl, val), w1)"
      using el by (cases tv) simp
    with f that show ?thesis by (simp add: train_epoch_eq save_if_decreased_snd)
  qed
  show "same_data_off (set (param_groups O')) (heap w) (heap (snd (train_epoch L M O' C u p (vmin, w) e)))"
  proof (cases r)
    case (Inl err)
    with el f show ?thesis by (simp add: train_epoch_err)
  next
    case (Inr tv)
    then obtain trl val where e2: "epoch_losses L M O' C u w e = (Inr (trl, val), w1)"
      using el by (cases tv) simp
    with f show ?thesis by (simp add: train_epoch_eq[OF e2] save_if_decreased_snd)
  qed
qed

subsection \<open>The loop over epochs\<close>

lemma train_loop_append:
  "train_loop L M O' C u p (m, w) (xs @ ys) =
     (case train_loop L M O' C u p (m, w) xs of
        (Inl e, w') \<Rightarrow> (Inl e, w')
      | (Inr m', w') \<Rightarrow> train_loop L M O' C u p (m', w') ys)"
  by (induction xs arbitrary: m w) (auto split: prod.splits sum.splits)

lemma train_loop_frame:
  "(\<forall>q. q \<noteq> p \<longrightarrow> files (snd (train_loop L M O' C u p (m, w) es)) q = files w q)
   \<and> same_data_off (set (param_groups O')) (heap w) (heap (snd (train_loop L M O' C u p (m, w) es)))"
proof (induction es arbitrary: m w)
  case Nil
  show ?case by (simp add: same_data_off_refl)
next
  case (Cons e es)
  obtain r w1 where te: "train_epoch L M O' C u p (m, w) e = (r, w1)"
    by (cases "train_epoch L M O' C u p (m, w) e")
  have f: "\<forall>q. q \<noteq> p \<longrightarrow> files w1 q = files w q"
    "same_data_off (set (param_groups O')) (heap w) (heap w1)"
    using train_epoch_frame[where p = p and L = L and M = M and O' = O' and C = C and u = u
        and vmin = m and w = w and e = e] te by simp_all
  show ?case
  proof (cases r)
    case (Inl err)
    with te f show ?thesis by simp
  next
    case (Inr m1)
    with te f Cons.IH[of m1 w1] show ?thesis
      by (auto intro: same_data_off_trans)
  qed
qed

lemma train_frame:
  "(\<forall>q. q \<noteq> p \<longrightarrow> files (snd (train n L M O' C u p w)) q = files w q)
   \<and> same_data_off (set (param_groups O')) (heap w) (heap (snd (train n L M O' C u p w)))"
proof -
  have "snd (train n L M O' C u p w) = snd (train_loop L M O' C u p (PInf, w) [1..n])"
    by (simp add: train_def split: prod.splits sum.splits)
  then show ?thesis
    using train_loop_frame[where p = p and L = L and M = M and O' = O' and C = C and u = u
        and m = PInf and w = w and es = "[1..n]"] by simp
qed

text \<open>A run of \<open>n\<close> epochs passes through the state a run of \<open>j \<le> n\<close> epochs ends in.\<close>

lemma train_loop_prefix:
  assumes "0 \<le> j" and "j \<le> n"
  shows "train_loop L M O' C u p (m, w) [1..n] =
     (case train_loop L M O' C u p (m, w) [1..j] of
        (Inl e, w') \<Rightarrow> (Inl e, w')
      | (Inr m', w') \<Rightarrow> train_loop L M O' C u p (m', w') [j + 1..n])"
proof (cases "1 \<le> j")
  case True
  with \<open>j \<le> n\<close> have "[1..n] = [1..j] @ [j + 1..n]"
    using upto_split2[of 1 j n] by simp
  then show ?thesis by (simp add: train_loop_append)
next
  case False
  with \<open>0 \<le> j\<close> have "j = 0" by simp
  then show ?thesis by simp
qed

lemma foldl_keep:
  assumes "foldl keep (m0, f0) hist = (m, f)" and "m0 \<noteq> NaN"
  shows "m \<noteq> NaN \<and> fle m m0 \<and> (\<forall>(v, sd)\<in>set hist. v \<noteq> NaN \<longrightarrow> fle m v)
       \<and> (((m, f) = (m0, f0) \<and> (\<forall>(v, sd)\<in>set hist. \<not> fle v m0))
           \<or> (\<exists>(v, sd)\<in>set hist. m = v \<and> f = Some sd))"
  using assms
proof (induction hist arbitrary: m0 f0)
  case Nil
  then show ?case by (simp add: fle_refl)
next
  case (Cons x hist)
  obtain v sd where x: "x = (v, sd)" by (cases x)
  obtain m1 f1 where k: "keep (m0, f0) (v, sd) = (m1, f1)" by (cases "keep (m0, f0) (v, sd)")
  have m1: "m1 \<noteq> NaN" "fle m1 m0"
    using k Cons.prems(2) by (auto simp: keep.simps fle_refl split: if_splits dest: fle_not_NaN)
  from Cons.prems(1) have "foldl keep (m1, f1) hist = (m, f)" by (simp add: x k)
  from Cons.IH[OF this m1(1)]
  have ih: "m \<noteq> NaN" "fle m m1" "\<forall>(v, sd)\<in>set hist. v \<noteq> NaN \<longrightarrow> fle m v"
    "((m, f) = (m1, f1) \<and> (\<forall>(v, sd)\<in>set hist. \<not> fle v m1)) \<or> (\<exists>(v, sd)\<in>set hist. m = v \<and> f = Some sd)"
    by auto
  have a: "fle m m0" using ih(2) m1(2) by (rule fle_trans)
  have b: "fle m v" if "v \<noteq> NaN"
  proof (cases "fle v m0")
    case True
    with k have "m1 = v" by (simp add: keep.simps)
    with ih(2) show ?thesis by simp
  next
    case False
    with that Cons.prems(2) have "fle m0 v" by (simp add: fle_total)
    with a show ?thesis by (rule fle_trans)
  qed
  have c: "((m, f) = (m0, f0) \<and> (\<forall>(v, sd)\<in>set (x # hist). \<not> fle v m0))
           \<or> (\<exists>(v, sd)\<in>set (x # hist). m = v \<and> f = Some sd)"
  proof (cases "fle v m0")
    case True
    with k have "m1 = v" "f1 = Some sd" by (simp_all add: keep.simps)
    with ih(4) show ?thesis by (auto simp: x)
  next
    case False
    with k have "m1 = m0" "f1 = f0" by (simp_all add: keep.simps)
    with ih(4) False show ?thesis by (auto simp: x)
  qed
  from ih(1) a b c ih(3) show ?case by (auto simp: x)
qed

lemma train_loop_log:
  "train_loop L M O' C u p (m0, w0) es = (Inr m, w) \<Longrightarrow>
   (m, files w p) = foldl keep (m0, files w0 p) (epoch_log L M O' C u p (m0, w0) es)
   \<and> length (epoch_log L M O' C u p (m0, w0) es) = length es"
proof (induction es arbitrary: m0 w0)
  case Nil
  then show ?case by simp
next
  case (Cons e es)
  show ?case
  proof (cases "epoch_losses L M O' C u w0 e")
    case (Pair r w1)
    show ?thesis
    proof (cases r)
      case (Inl err)
      with Pair Cons.prems show ?thesis by (simp add: train_epoch_err)
    next
      case (Inr tv)
      obtain trl val where tv: "tv = (trl, val)" by (cases tv)
      obtain m1 w2 where s: "save_if_decreased M p e trl val m0 w1 = (m1, w2)"
        by (cases "save_if_decreased M p e trl val m0 w1")
      have el: "epoch_losses L M O' C u w0 e = (Inr (trl, val), w1)"
        using Pair Inr tv by simp
      from Cons.prems have loop: "train_loop L M O' C u p (m1, w2) es = (Inr m, w)"
        by (simp add: train_epoch_eq[OF el] s)
      have f1: "files w1 = files w0"
        using epoch_losses_frame(1)[of L M O' C u w0 e] el by simp
      have k: "keep (m0, files w0 p) (val, state_dict M w1) = (m1, files w2 p)"
        using save_if_decreased_eq[OF s] f1 by (simp add: keep.simps)
      from Cons.IH[OF loop] show ?thesis
        by (simp add: el s k)
    qed
  qed
qed

subsection \<open>The test loop\<close>

text \<open>
  \<open>no_larger\<close> is a total preorder, and an entry beats the best so far exactly when it is not
  \<open>no_larger\<close> than it.
\<close>

lemma no_larger_refl: "no_larger x x"
  by (cases x) (simp_all add: no_larger_def)

lemma no_larger_trans: "no_larger x y \<Longrightarrow> no_larger y z \<Longrightarrow> no_larger x z"
  by (cases x; cases y; cases z) (simp_all add: no_larger_def)

lemma no_larger_total: "\<not> no_larger x y \<Longrightarrow> no_larger y x"
  by (cases x; cases y) (simp_all add: no_larger_def)

lemma beats_iff: "beats x best = (\<not> no_larger x best)"
  by (cases x; cases best) (auto simp: beats_def no_larger_def)

text \<open>
  The scan of \<open>argmax_from\<close> keeps the first position of the largest entry seen: \<open>pre\<close> is the
  part of the row already scanned, \<open>bi\<close> the best position in it.
\<close>

lemma argmax_from_first_max:
  assumes "bi < length pre"
    and "\<forall>j<length pre. no_larger (pre ! j) (pre ! bi)"
    and "\<forall>j<bi. \<not> no_larger (pre ! bi) (pre ! j)"
  shows "argmax_from (pre ! bi) bi (length pre) xs < length (pre @ xs)
       \<and> (\<forall>j<length (pre @ xs).
             no_larger ((pre @ xs) ! j) ((pre @ xs) ! argmax_from (pre ! bi) bi (length pre) xs))
       \<and> (\<forall>j<argmax_from (pre ! bi) bi (length pre) xs.
             \<not> no_larger ((pre @ xs) ! argmax_from (pre ! bi) bi (length pre) xs) ((pre @ xs) ! j))"
  using assms
proof (induction xs arbitrary: pre bi)
  case Nil
  then show ?case by simp
next
  case (Cons x xs)
  let ?pre = "pre @ [x]"
  show ?case
  proof (cases "beats x (pre ! bi)")
    case True
    then have nb: "\<not> no_larger x (pre ! bi)" by (simp add: beats_iff)
    then have bx: "no_larger (pre ! bi) x" by (rule no_larger_total)
    have i1: "\<forall>j<length ?pre. no_larger (?pre ! j) (?pre ! length pre)"
    proof (intro allI impI)
      fix j assume "j < length ?pre"
      then consider "j < length pre" | "j = length pre" by fastforce
      then show "no_larger (?pre ! j) (?pre ! length pre)"
      proof cases
        case 1
        with Cons.prems(2) have "no_larger (pre ! j) (pre ! bi)" by simp
        from this bx have "no_larger (pre ! j) x" by (rule no_larger_trans)
        with 1 show ?thesis by (simp add: nth_append)
      next
        case 2
        then show ?thesis by (simp add: no_larger_refl)
      qed
    qed
    have i2: "\<forall>j<length pre. \<not> no_larger (?pre ! length pre) (?pre ! j)"
    proof (intro allI impI notI)
      fix j assume j: "j < length pre" and "no_larger (?pre ! length pre) (?pre ! j)"
      then have "no_larger x (pre ! j)" by (simp add: nth_append)
      moreover from Cons.prems(2) j have "no_larger (pre ! j) (pre ! bi)" by simp
      ultimately have "no_larger x (pre ! bi)" by (rule no_larger_trans)
      with nb show False by simp
    qed
    have "length pre < length ?pre" by simp
    from Cons.IH[OF this i1 i2] True show ?thesis by simp
  next
    case False
    then have le: "no_larger x (pre ! bi)" by (simp add: beats_iff)
    have bi: "bi < length ?pre" using Cons.prems(1) by simp
    have i1: "\<forall>j<length ?pre. no_larger (?pre ! j) (?pre ! bi)"
    proof (intro allI impI)
      fix j assume "j < length ?pre"
      then consider "j < length pre" | "j = length pre" by fastforce
      then show "no_larger (?pre ! j) (?pre ! bi)"
        using Cons.prems(1,2) le by cases (simp_all add: nth_append)
    qed
    have i2: "\<forall>j<bi. \<not> no_larger (?pre ! bi) (?pre ! j)"
      using Cons.prems(1,3) by (simp add: nth_append)
    from Cons.IH[OF bi i1 i2] False Cons.prems(1) show ?thesis by (simp add: nth_append)
  qed
qed

lemma top1_nth:
  "top1 row t = (t < length row \<and> (\<forall>j<length row. no_larger (row ! j) (row ! t))
                 \<and> (\<forall>j<t. \<not> no_larger (row ! t) (row ! j)))"
  by (auto simp: top1_def list_all_length)

lemma top1_unique:
  assumes "top1 row s" and "top1 row t"
  shows "s = t"
proof (rule ccontr)
  assume "s \<noteq> t"
  then consider "s < t" | "t < s" by linarith
  then show False
  proof cases
    case 1
    with assms(2) have "\<not> no_larger (row ! t) (row ! s)" by (simp add: top1_nth)
    moreover from assms have "no_larger (row ! t) (row ! s)" by (simp add: top1_nth)
    ultimately show False by simp
  next
    case 2
    with assms(1) have "\<not> no_larger (row ! s) (row ! t)" by (simp add: top1_nth)
    moreover from assms have "no_larger (row ! s) (row ! t)" by (simp add: top1_nth)
    ultimately show False by simp
  qed
qed

text \<open>What the code computes for a row is the class the row predicts, and nothing else is.\<close>

lemma argmax_top1: "(argmax row = Inr t) = top1 row t"
proof (cases row)
  case Nil
  then show ?thesis by (simp add: argmax_def top1_def)
next
  case (Cons x xs)
  have a: "argmax row = Inr (argmax_from x 0 1 xs)" by (simp add: Cons argmax_def)
  have "top1 row (argmax_from x 0 1 xs)"
    using argmax_from_first_max[of 0 "[x]" xs] by (simp add: top1_nth Cons no_larger_refl)
  then show ?thesis
    using a top1_unique by auto
qed

lemma argmax_is_maximum:
  assumes "argmax row = Inr i" and "NaN \<notin> set row"
  shows "i < length row \<and> (\<forall>j<length row. fle (row ! j) (row ! i))"
proof -
  from assms(1) have t: "top1 row i" by (simp add: argmax_top1)
  then have i: "i < length row" by (simp add: top1_nth)
  with assms(2) have "row ! i \<noteq> NaN" by (auto simp: in_set_conv_nth)
  with t i show ?thesis by (simp add: top1_nth no_larger_def)
qed

lemma max1_count:
  "max1 rs = Inr pred \<Longrightarrow> length pred = length rs \<and> count_eq pred target = n_correct rs target"
proof (induction rs arbitrary: pred target)
  case Nil
  then show ?case by (simp add: count_eq_def n_correct_def)
next
  case (Cons row rs)
  from Cons.prems obtain i js where i: "argmax row = Inr i" and js: "max1 rs = Inr js"
    and pred: "pred = i # js"
    by (auto split: sum.splits)
  have t: "top1 row t = (i = t)" for t
    using i by (simp add: argmax_top1[symmetric])
  show ?case
  proof (cases target)
    case Nil
    with Cons.IH[OF js, of "[]"] show ?thesis
      by (simp add: pred count_eq_def n_correct_def)
  next
    case (Cons t' ts)
    with Cons.IH[OF js, of ts] show ?thesis
      by (simp add: pred t count_eq_def n_correct_def)
  qed
qed

lemma test_loop_frame:
  "heap (snd (test_loop M C u acc w bs)) = heap w \<and> files (snd (test_loop M C u acc w bs)) = files w"
proof (induction bs arbitrary: acc w)
  case Nil
  obtain a c t where "acc = (a, c, t)" by (cases acc)
  then show ?case by (simp add: test_loop.simps)
next
  case (Cons b bs)
  obtain a c t where acc: "acc = (a, c, t)" by (cases acc)
  obtain outp w2 where cl: "call M (map fst b) w = (outp, w2)" by (cases "call M (map fst b) w")
  from call_frame[OF cl] have w2: "heap w2 = heap w" "files w2 = files w" by simp_all
  show ?case
    using Cons.IH[of _ w2] w2
    by (simp add: acc test_loop.simps cuda_def cl Let_def split: sum.splits)
qed

lemma test_loop_ok:
  "test_loop M C u (a0, c0, t0) w bs = (Inr (a, c, t), w') \<Longrightarrow>
   trace w' = trace w @ test_events (test_log M C w bs)
   \<and> a = foldl (\<lambda>s (l, n). fadd s (fmul l (Fin (real n)))) a0 (test_losses (test_log M C w bs))
   \<and> c = c0 + test_correct (test_log M C w bs)
   \<and> t = t0 + test_total (test_log M C w bs)"
proof (induction bs arbitrary: a0 c0 t0 w)
  case Nil
  then show ?case
    by (simp add: test_loop.simps test_events_def test_losses_def test_correct_def test_total_def)
next
  case (Cons b bs)
  obtain outp w2 where cl: "call M (map fst b) w = (outp, w2)" by (cases "call M (map fst b) w")
  from call_frame[OF cl] have w2: "trace w2 = trace w @ [Forward (length b)]" by simp
  define a1 where "a1 = fadd a0 (fmul (item (C outp (map snd b))) (Fin (real (length b))))"
  from Cons.prems obtain pred where pred: "max1 (rows outp) = Inr pred"
    and len: "length pred = length b"
    and rest: "test_loop M C u (a1, c0 + count_eq pred (map snd b), t0 + length b) w2 bs = (Inr (a, c, t), w')"
    by (auto simp: test_loop.simps cuda_def cl Let_def a1_def split: sum.splits if_splits)
  have lg: "test_log M C w (b # bs) = (rows outp, map snd b, item (C outp (map snd b))) # test_log M C w2 bs"
    by (simp add: cl batch_loss_def)
  from max1_count[OF pred] have ce: "count_eq pred (map snd b) = n_correct (rows outp) (map snd b)"
    by simp
  from Cons.IH[OF rest] show ?case
    by (simp add: lg w2 ce a1_def test_events_def test_losses_def test_correct_def test_total_def
        del: test_log.simps)
qed

subsection \<open>Epoch by epoch\<close>

text \<open>The loop after one more epoch, and the list of completed epochs after one more epoch.\<close>

lemma train_loop_step:
  assumes "1 \<le> j"
    and "train_loop L M O' C u p (m0, w0) [1..j - 1] = (Inr vmin, w)"
    and "epoch_losses L M O' C u w j = (Inr (trl, val), w1)"
  shows "train_loop L M O' C u p (m0, w0) [1..j] =
           (Inr (if fle val vmin then val else vmin), snd (save_if_decreased M p j trl val vmin w1))"
proof -
  have "[1..j] = [1..j - 1] @ [j]"
    using \<open>1 \<le> j\<close> by (simp add: upto_rec2)
  moreover have "fst (save_if_decreased M p j trl val vmin w1) = (if fle val vmin then val else vmin)"
    using save_if_decreased_eq[of M p j trl val vmin w1
        "fst (save_if_decreased M p j trl val vmin w1)" "snd (save_if_decreased M p j trl val vmin w1)"]
    by simp
  ultimately show ?thesis
    by (simp add: train_loop_append assms(2) train_epoch_eq[OF assms(3)])
qed

lemma epoch_log_append:
  "epoch_log L M O' C u p (m, w) (xs @ ys) =
     (case train_loop L M O' C u p (m, w) xs of
        (Inl e, w') \<Rightarrow> epoch_log L M O' C u p (m, w) xs
      | (Inr m', w') \<Rightarrow> epoch_log L M O' C u p (m, w) xs @ epoch_log L M O' C u p (m', w') ys)"
proof (induction xs arbitrary: m w)
  case Nil
  show ?case by simp
next
  case (Cons e xs)
  obtain r w1 where el: "epoch_losses L M O' C u w e = (r, w1)"
    by (cases "epoch_losses L M O' C u w e")
  show ?case
  proof (cases r)
    case (Inl err)
    then show ?thesis by (simp add: el train_epoch_err[OF el[unfolded Inl]])
  next
    case (Inr tv)
    obtain trl val where tv: "tv = (trl, val)" by (cases tv)
    note el' = el[unfolded Inr tv]
    obtain m1 w2 where s: "save_if_decreased M p e trl val m w1 = (m1, w2)"
      by (cases "save_if_decreased M p e trl val m w1")
    show ?thesis
      using Cons.IH[of m1 w2]
      by (simp add: el' train_epoch_eq[OF el'] s split: prod.splits sum.splits)
  qed
qed

lemma epoch_log_Nil [simp]: "epoch_log L M O' C u p s [] = []"
  by (cases s) simp

lemma epoch_log_step:
  assumes "1 \<le> j"
    and "train_loop L M O' C u p (m0, w0) [1..j - 1] = (Inr vmin, w)"
    and "epoch_losses L M O' C u w j = (Inr (trl, val), w1)"
  shows "epoch_log L M O' C u p (m0, w0) [1..j] =
           epoch_log L M O' C u p (m0, w0) [1..j - 1] @ [(val, state_dict M w1)]"
proof -
  have "[1..j] = [1..j - 1] @ [j]"
    using \<open>1 \<le> j\<close> by (simp add: upto_rec2)
  then show ?thesis
    by (simp add: epoch_log_append assms(2,3))
qed

lemma train_world:
  "snd (train n L M O' C u p w) = snd (train_loop L M O' C u p (PInf, w) [1..n])"
  by (simp add: train_def split: prod.splits sum.splits)

subsection \<open>Runs of the small network\<close>

lemma pairI: "fst x = a \<Longrightarrow> snd x = b \<Longrightarrow> x = (a, b)"
  by auto

lemma upto_from_1: "[1..numeral n] = 1 # [2..numeral n]"
  by (simp add: upto.simps)

lemmas toy_defs = toy_val_def toy_forward_def toy_model_def toy_criterion_def toy_tensor_def
  toy_world_def toy_loaders_def toy_optimizer_def SGD_def parameters_def nan_loaders_def
  same_loaders_def still_optimizer_def stale_world_def stale_dict_def

lemmas run_defs = train_def train_epoch.simps train_step.simps valid_step.simps
  train_phase_def valid_phase_def epoch_losses_def save_if_decreased_def
  zero_grad_def call_def backward_def step_def torch_save_def state_dict_def emit_def modify_def
  sgd_update_def accumulate_def truediv_len_def cuda_def named_parameters_def
  Let_def enumerate_eq_zip upto_from_1

lemma toy_after0: "toy_after 0 = toy_world"
  by (simp add: toy_after_def)

lemma toy_losses1:
  "epoch_losses toy_loaders toy_model toy_optimizer toy_criterion False toy_world 1
     = (Inr (Fin (7 / 3), Fin (- 2)), toy_mid 1)"
proof (rule pairI)
  show "fst (epoch_losses toy_loaders toy_model toy_optimizer toy_criterion False toy_world 1)
          = Inr (Fin (7 / 3), Fin (- 2))"
    by (simp add: toy_defs run_defs)
  show "snd (epoch_losses toy_loaders toy_model toy_optimizer toy_criterion False toy_world 1) = toy_mid 1"
    by (simp add: toy_mid_def toy_after0)
qed

lemma toy_run1:
  "train_loop toy_loaders toy_model toy_optimizer toy_criterion False ''toy.pt'' (PInf, toy_world) [1..1]
     = (Inr (Fin (- 2)), toy_after 1)"
proof -
  have "train_loop toy_loaders toy_model toy_optimizer toy_criterion False ''toy.pt'' (PInf, toy_world) [1..1 - 1]
          = (Inr PInf, toy_world)"
    by simp
  from train_loop_step[OF _ this toy_losses1] show ?thesis
    by (simp add: toy_after_def)
qed

lemma toy_losses2:
  "epoch_losses toy_loaders toy_model toy_optimizer toy_criterion False (toy_after 1) 2
     = (Inr (Fin (- (7 / 3)), Fin 6), toy_mid 2)"
proof (rule pairI)
  show "fst (epoch_losses toy_loaders toy_model toy_optimizer toy_criterion False (toy_after 1) 2)
          = Inr (Fin (- (7 / 3)), Fin 6)"
    by (simp add: toy_after_def toy_defs run_defs)
  show "snd (epoch_losses toy_loaders toy_model toy_optimizer toy_criterion False (toy_after 1) 2) = toy_mid 2"
    by (simp add: toy_mid_def)
qed

lemma toy_run2:
  "train_loop toy_loaders toy_model toy_optimizer toy_criterion False ''toy.pt'' (PInf, toy_world) [1..2]
     = (Inr (Fin (- 2)), toy_after 2)"
proof -
  have "train_loop toy_loaders toy_model toy_optimizer toy_criterion False ''toy.pt'' (PInf, toy_world) [1..2 - 1]
          = (Inr (Fin (- 2)), toy_after 1)"
    using toy_run1 by simp
  from train_loop_step[OF _ this toy_losses2] show ?thesis
    by (simp add: toy_after_def)
qed

lemma toy_log2:
  "epoch_log toy_loaders toy_model toy_optimizer toy_criterion False ''toy.pt'' (PInf, toy_world) [1..2]
     = [(Fin (- 2), state_dict toy_model (toy_mid 1)), (Fin 6, state_dict toy_model (toy_mid 2))]"
proof -
  have r0: "train_loop toy_loaders toy_model toy_optimizer toy_criterion False ''toy.pt'' (PInf, toy_world) [1..1 - 1]
          = (Inr PInf, toy_world)"
    by simp
  have r1: "train_loop toy_loaders toy_model toy_optimizer toy_criterion False ''toy.pt'' (PInf, toy_world) [1..2 - 1]
          = (Inr (Fin (- 2)), toy_after 1)"
    using toy_run1 by simp
  have "epoch_log toy_loaders toy_model toy_optimizer toy_criterion False ''toy.pt'' (PInf, toy_world) [1..1]
          = [(Fin (- 2), state_dict toy_model (toy_mid 1))]"
    using epoch_log_step[OF _ r0 toy_losses1] by simp
  with epoch_log_step[OF _ r1 toy_losses2] show ?thesis by simp
qed

lemma still_losses1:
  "epoch_losses same_loaders toy_model still_optimizer toy_criterion False toy_world 1
     = (Inr (Fin 3, Fin 2), still_mid 1)"
proof (rule pairI)
  show "fst (epoch_losses same_loaders toy_model still_optimizer toy_criterion False toy_world 1)
          = Inr (Fin 3, Fin 2)"
    by (simp add: toy_defs run_defs)
  show "snd (epoch_losses same_loaders toy_model still_optimizer toy_criterion False toy_world 1) = still_mid 1"
    by (simp add: still_mid_def still_after_def)
qed

lemma still_run1:
  "train_loop same_loaders toy_model still_optimizer toy_criterion False ''toy.pt'' (PInf, toy_world) [1..1]
     = (Inr (Fin 2), still_after 1)"
proof -
  have "train_loop same_loaders toy_model still_optimizer toy_criterion False ''toy.pt'' (PInf, toy_world) [1..1 - 1]
          = (Inr PInf, toy_world)"
    by simp
  from train_loop_step[OF _ this still_losses1] show ?thesis
    by (simp add: still_after_def)
qed

lemma still_losses2:
  "epoch_losses same_loaders toy_model still_optimizer toy_criterion False (still_after 1) 2
     = (Inr (Fin 3, Fin 2), still_mid 2)"
proof (rule pairI)
  show "fst (epoch_losses same_loaders toy_model still_optimizer toy_criterion False (still_after 1) 2)
          = Inr (Fin 3, Fin 2)"
    by (simp add: still_after_def toy_defs run_defs)
  show "snd (epoch_losses same_loaders toy_model still_optimizer toy_criterion False (still_after 1) 2) = still_mid 2"
    by (simp add: still_mid_def)
qed

subsection \<open>Supporting facts about the models\<close>

text \<open>In the transfer model no tensor of the feature extractor is a tensor of the classifier.\<close>

lemma model_transfer_disjoint:
  "set (parameters (features (model_transfer fwd))) \<inter> set (parameters (classifier (model_transfer fwd))) = {}"
  "parameters (classifier (model_transfer fwd)) = [26, 27, 28, 29, 32, 33]"
  "map fst (classifier (model_transfer fwd)) =
     [''classifier.0.weight'', ''classifier.0.bias'', ''classifier.3.weight'', ''classifier.3.bias'',
      ''classifier.6.weight'', ''classifier.6.bias'']"
  by (simp_all add: model_transfer_def vgg16_def parameters_def layer_names_def upt_rec)

text \<open>
  The test at the end of an epoch, split into its two cases: the file is written when the
  validation loss is below the running minimum, and when the two are equal and not NaN.
\<close>

lemma save_iff_decrease_or_tie:
  assumes "epoch_losses L M O' C u w e = (Inr (trl, val), w1)"
  shows "\<exists>m' w2. train_epoch L M O' C u p (vmin, w) e = (Inr m', w2)
           \<and> (TorchSave p \<in> set (drop (length (trace w1)) (trace w2)))
               = (flt val vmin \<or> (val = vmin \<and> val \<noteq> NaN))
           \<and> (flt val vmin \<or> (val = vmin \<and> val \<noteq> NaN) \<longrightarrow> files w2 p = Some (state_dict M w1))
           \<and> (\<not> (flt val vmin \<or> (val = vmin \<and> val \<noteq> NaN)) \<longrightarrow> files w2 = files w1)"
proof -
  obtain m' w2 where s: "save_if_decreased M p e trl val vmin w1 = (m', w2)"
    by (cases "save_if_decreased M p e trl val vmin w1")
  have te: "train_epoch L M O' C u p (vmin, w) e = (Inr m', w2)"
    by (simp add: train_epoch_eq[OF assms] s)
  from save_if_decreased_eq[OF s]
  have "(TorchSave p \<in> set (drop (length (trace w1)) (trace w2))) = fle val vmin"
    and "fle val vmin \<longrightarrow> files w2 p = Some (state_dict M w1)"
    and "\<not> fle val vmin \<longrightarrow> files w2 = files w1"
    by auto
  with te show ?thesis
    unfolding fle_iff[of val vmin] by (intro exI[of _ m'] exI[of _ w2] conjI)
qed

section \<open>The claims\<close>

text \<open>
  Claim C1. In every epoch of the train loop the checkpoint is written if and only if the
  epoch's mean validation loss is less than or equal to the running minimum, and exactly then
  the running minimum becomes that loss. Epoch \<open>j\<close> starts in the world \<open>w\<close> the loop has
  reached after \<open>j - 1\<close> epochs, with running minimum \<open>vmin\<close>; its means are \<open>trl\<close> and \<open>val\<close>.
  Then the loop goes on with \<open>val\<close> as minimum when \<open>val <= vmin\<close> and with \<open>vmin\<close> otherwise, the
  events after the two loops hold a \<open>torch.save\<close> to \<open>save_path\<close> exactly when \<open>val <= vmin\<close>, and
  the file then holds the parameters of the model at that moment.
\<close>

theorem checkpoint_written_iff_le:
  assumes "1 \<le> j"
    and "train_loop L M O' C u p (PInf, w0) [1..j - 1] = (Inr vmin, w)"
    and "epoch_losses L M O' C u w j = (Inr (trl, val), w1)"
  shows "\<exists>w2. train_loop L M O' C u p (PInf, w0) [1..j] = (Inr (if fle val vmin then val else vmin), w2)
           \<and> (TorchSave p \<in> set (drop (length (trace w1)) (trace w2))) = fle val vmin
           \<and> files w2 = (if fle val vmin then (files w1)(p \<mapsto> state_dict M w1) else files w1)
           \<and> heap w2 = heap w1"
proof -
  obtain m' w2 where s: "save_if_decreased M p j trl val vmin w1 = (m', w2)"
    by (cases "save_if_decreased M p j trl val vmin w1")
  have "train_loop L M O' C u p (PInf, w0) [1..j] = (Inr (if fle val vmin then val else vmin), w2)"
    using train_loop_step[OF assms] s by simp
  with save_if_decreased_eq[OF s] show ?thesis by auto
qed

theorem checkpoint_written_iff_le_witness:
  "train_loop toy_loaders toy_model toy_optimizer toy_criterion False ''toy.pt'' (PInf, toy_world) [1..2 - 1]
     = (Inr (Fin (- 2)), toy_after 1)
   \<and> epoch_losses toy_loaders toy_model toy_optimizer toy_criterion False (toy_after 1) 2
     = (Inr (Fin (- (7 / 3)), Fin 6), toy_mid 2)
   \<and> (\<exists>w2. train_loop toy_loaders toy_model toy_optimizer toy_criterion False ''toy.pt'' (PInf, toy_world) [1..2]
              = (Inr (Fin (- 2)), w2)
         \<and> TorchSave ''toy.pt'' \<notin> set (drop (length (trace (toy_mid 2))) (trace w2))
         \<and> files w2 = files (toy_mid 2) \<and> heap w2 = heap (toy_mid 2))"
proof -
  have h1: "train_loop toy_loaders toy_model toy_optimizer toy_criterion False ''toy.pt'' (PInf, toy_world) [1..2 - 1]
     = (Inr (Fin (- 2)), toy_after 1)"
    using toy_run1 by simp
  from checkpoint_written_iff_le[OF _ h1 toy_losses2]
  have "\<exists>w2. train_loop toy_loaders toy_model toy_optimizer toy_criterion False ''toy.pt'' (PInf, toy_world) [1..2]
              = (Inr (Fin (- 2)), w2)
         \<and> TorchSave ''toy.pt'' \<notin> set (drop (length (trace (toy_mid 2))) (trace w2))
         \<and> files w2 = files (toy_mid 2) \<and> heap w2 = heap (toy_mid 2)"
    by simp
  with h1 toy_losses2 show ?thesis by (intro conjI)
qed

text \<open>
  Claim C2. The checkpoint is to be overwritten exactly when the validation loss of an epoch
  strictly decreases below the running minimum, and an epoch that ties with the running minimum
  is to leave the file alone; the comment above the test in \<open>train\<close> and the line it prints say
  the same (\<open>decreased\<close>). The test itself is \<open>valid_loss <= valid_loss_min\<close>, and the code does
  not keep to this on a tie. In this run no parameter moves and every validation pass is the
  same: the second epoch starts with running minimum 2, its validation loss is 2, which is not
  less than 2, and the epoch prints the saving line with both numbers 2 and writes the file
  again.
\<close>

theorem tie_overwrites_checkpoint:
  "train_loop same_loaders toy_model still_optimizer toy_criterion False ''toy.pt'' (PInf, toy_world) [1..1]
     = (Inr (Fin 2), still_after 1)
   \<and> epoch_losses same_loaders toy_model still_optimizer toy_criterion False (still_after 1) 2
     = (Inr (Fin 3, Fin 2), still_mid 2)
   \<and> \<not> flt (Fin 2) (Fin 2)
   \<and> trace (still_after 2) = trace (still_mid 2) @
        [PrintEpoch 2 (Fin 3) (Fin 2), PrintSaving (Fin 2) (Fin 2), TorchSave ''toy.pt'']
   \<and> files (still_after 2) ''toy.pt'' = Some (state_dict toy_model (still_mid 2))"
proof -
  have r1: "train_loop same_loaders toy_model still_optimizer toy_criterion False ''toy.pt'' (PInf, toy_world) [1..2 - 1]
          = (Inr (Fin 2), still_after 1)"
    using still_run1 by simp
  have "still_after 2 = snd (save_if_decreased toy_model ''toy.pt'' 2 (Fin 3) (Fin 2) (Fin 2) (still_mid 2))"
    using train_loop_step[OF _ r1 still_losses2] by (simp add: still_after_def)
  then have "trace (still_after 2) = trace (still_mid 2) @
        [PrintEpoch 2 (Fin 3) (Fin 2), PrintSaving (Fin 2) (Fin 2), TorchSave ''toy.pt'']"
    and "files (still_after 2) ''toy.pt'' = Some (state_dict toy_model (still_mid 2))"
    using save_if_decreased_eq[of toy_model "''toy.pt''" 2 "Fin 3" "Fin 2" "Fin 2" "still_mid 2"
        "fst (save_if_decreased toy_model ''toy.pt'' 2 (Fin 3) (Fin 2) (Fin 2) (still_mid 2))" "still_after 2"]
    by simp_all
  with still_run1 still_losses2 show ?thesis by simp
qed

text \<open>
  Claim C3, as amended. A run writes no file but the one at \<open>save_path\<close>, so it never holds
  more than one checkpoint. After each completed epoch \<open>j\<close>, if some validation loss so far
  was not NaN, the file holds the parameters the model had at the end of one of the epochs
  \<open>1..j\<close>, the validation loss of that epoch is the running minimum, and it is at most every
  validation loss observed so far that is not NaN.
\<close>

theorem checkpoint_is_best_epoch:
  assumes "train_loop L M O' C u p (PInf, w0) [1..j] = (Inr vmin, w)"
      and "\<exists>(v, sd)\<in>set (epoch_log L M O' C u p (PInf, w0) [1..j]). v \<noteq> NaN"
  shows "(\<forall>q. q \<noteq> p \<longrightarrow> files w q = files w0 q)
       \<and> length (epoch_log L M O' C u p (PInf, w0) [1..j]) = length [1..j]
       \<and> (\<exists>(v, sd)\<in>set (epoch_log L M O' C u p (PInf, w0) [1..j]).
             files w p = Some sd \<and> v = vmin
             \<and> (\<forall>(v', sd')\<in>set (epoch_log L M O' C u p (PInf, w0) [1..j]). v' \<noteq> NaN \<longrightarrow> fle v v'))"
proof -
  let ?h = "epoch_log L M O' C u p (PInf, w0) [1..j]"
  have a: "\<forall>q. q \<noteq> p \<longrightarrow> files w q = files w0 q"
    using train_loop_frame[where p = p and L = L and M = M and O' = O' and C = C and u = u
        and m = PInf and w = w0 and es = "[1..j]"] assms(1) by simp
  from train_loop_log[OF assms(1)]
  have k: "foldl keep (PInf, files w0 p) ?h = (vmin, files w p)" and l: "length ?h = length [1..j]"
    by simp_all
  from foldl_keep[OF k]
  have min: "\<forall>(v, sd)\<in>set ?h. v \<noteq> NaN \<longrightarrow> fle vmin v"
    and alt: "((vmin, files w p) = (PInf, files w0 p) \<and> (\<forall>(v, sd)\<in>set ?h. \<not> fle v PInf))
           \<or> (\<exists>(v, sd)\<in>set ?h. vmin = v \<and> files w p = Some sd)"
    by simp_all
  from assms(2) obtain v0 sd0 where "(v0, sd0) \<in> set ?h" "v0 \<noteq> NaN" by auto
  then have "\<not> (\<forall>(v, sd)\<in>set ?h. \<not> fle v PInf)" by auto
  with alt obtain v sd where vs: "(v, sd) \<in> set ?h" "vmin = v" "files w p = Some sd"
    by auto
  have "files w p = Some sd \<and> v = vmin
             \<and> (\<forall>(v', sd')\<in>set ?h. v' \<noteq> NaN \<longrightarrow> fle v v')"
    using vs min by simp
  with vs(1) have "\<exists>(v, sd)\<in>set ?h. files w p = Some sd \<and> v = vmin
             \<and> (\<forall>(v', sd')\<in>set ?h. v' \<noteq> NaN \<longrightarrow> fle v v')"
    by (intro bexI[of _ "(v, sd)"]) auto
  with a l show ?thesis by (intro conjI)
qed

theorem checkpoint_is_best_epoch_witness:
  "train_loop toy_loaders toy_model toy_optimizer toy_criterion False ''toy.pt'' (PInf, toy_world) [1..2]
     = (Inr (Fin (- 2)), toy_after 2)
   \<and> epoch_log toy_loaders toy_model toy_optimizer toy_criterion False ''toy.pt'' (PInf, toy_world) [1..2]
     = [(Fin (- 2), state_dict toy_model (toy_mid 1)), (Fin 6, state_dict toy_model (toy_mid 2))]
   \<and> files (toy_after 2) ''toy.pt'' = Some (state_dict toy_model (toy_mid 1))
   \<and> files (toy_after 2) ''model_scratch.pt'' = files toy_world ''model_scratch.pt''"
proof -
  have some: "\<exists>(v, sd)\<in>set (epoch_log toy_loaders toy_model toy_optimizer toy_criterion False ''toy.pt''
                              (PInf, toy_world) [1..2]). v \<noteq> NaN"
    unfolding toy_log2 by simp
  from checkpoint_is_best_epoch[OF toy_run2 some]
  have "files (toy_after 2) ''toy.pt'' = Some (state_dict toy_model (toy_mid 1))"
    and "files (toy_after 2) ''model_scratch.pt'' = files toy_world ''model_scratch.pt''"
    unfolding toy_log2 by auto
  with toy_run2 toy_log2 show ?thesis by (intro conjI)
qed

text \<open>
  Claim C3 as stated fails when every validation loss so far is NaN: after the only epoch of
  this run, which completes, the file at the path still holds what an earlier run left there,
  and that is not the parameters of the epoch.
\<close>

theorem nan_epoch_keeps_stale_checkpoint:
  "fst (train_loop nan_loaders toy_model toy_optimizer toy_criterion False ''toy.pt'' (PInf, stale_world) [1..1])
     = Inr PInf
   \<and> epoch_log nan_loaders toy_model toy_optimizer toy_criterion False ''toy.pt'' (PInf, stale_world) [1..1]
       = [(NaN, [(''features.0.weight'', [Fin 1]), (''features.0.bias'', [Fin 0]),
                 (''classifier.6.weight'', [Fin 0]), (''classifier.6.bias'', [Fin (- 1)])], 4)]
   \<and> files (snd (train_loop nan_loaders toy_model toy_optimizer toy_criterion False ''toy.pt''
                    (PInf, stale_world) [1..1])) ''toy.pt''
       = Some ([(''features.0.weight'', [Fin 9]), (''features.0.bias'', [Fin 9]),
                (''classifier.6.weight'', [Fin 9]), (''classifier.6.bias'', [Fin 9])], 0)"
  by (simp add: toy_defs run_defs)

text \<open>
  Claim C4. The losses an epoch reports are, for the training and for the validation pass, the
  sum over the batches of the pass of the batch loss times the batch's sample count, divided by
  the length of the loader's dataset. The sum is the one the loop builds, from \<open>0.0\<close> in batch
  order; when every batch loss is finite it is the real sum, and the reported loss is
  \<open>mean_of\<close>. The epoch line of the trace is the only one the epoch prints.
\<close>

theorem epoch_reports_weighted_means:
  assumes "train_epoch L M O' C u p (vmin, w) e = (Inr vmin', w')"
  shows "\<exists>trl val.
      truediv_len (weighted_sum (epoch_train_losses L M O' C u w e)) (dataset_len (train_loader L)) = Inr trl
    \<and> truediv_len (weighted_sum (epoch_valid_losses L M O' C u w e)) (dataset_len (valid_loader L)) = Inr val
    \<and> trace w' = trace w @ epoch_events L e @ PrintEpoch e trl val #
        (if fle val vmin then [PrintSaving vmin val, TorchSave p] else [])
    \<and> (list_all (\<lambda>(l, n). is_fin l) (epoch_train_losses L M O' C u w e) \<longrightarrow>
          trl = Fin (mean_of (epoch_train_losses L M O' C u w e) (dataset_len (train_loader L))))
    \<and> (list_all (\<lambda>(l, n). is_fin l) (epoch_valid_losses L M O' C u w e) \<longrightarrow>
          val = Fin (mean_of (epoch_valid_losses L M O' C u w e) (dataset_len (valid_loader L))))"
proof -
  obtain r w1 where el: "epoch_losses L M O' C u w e = (r, w1)"
    by (cases "epoch_losses L M O' C u w e")
  from assms el obtain trl val where r: "r = Inr (trl, val)"
    by (cases r) (auto simp: train_epoch.simps)
  note el' = el[unfolded r]
  have t: "truediv_len (weighted_sum (epoch_train_losses L M O' C u w e)) (dataset_len (train_loader L)) = Inr trl"
    using epoch_losses_ok(1)[OF el'] by (simp add: train_phase_loss epoch_train_losses_def)
  have v: "truediv_len (weighted_sum (epoch_valid_losses L M O' C u w e)) (dataset_len (valid_loader L)) = Inr val"
    using epoch_losses_ok(2)[OF el'] by (simp add: valid_phase_loss epoch_valid_losses_def)
  have tr1: "trace w1 = trace w @ epoch_events L e"
    using epoch_losses_frame(3)[where L = L and M = M and O' = O' and C = C and u = u and w = w and e = e]
    by (simp add: el)
  have "w' = snd (save_if_decreased M p e trl val vmin w1)"
    using assms by (simp add: train_epoch_eq[OF el'])
  then have tr: "trace w' = trace w @ epoch_events L e @ PrintEpoch e trl val #
        (if fle val vmin then [PrintSaving vmin val, TorchSave p] else [])"
    using save_if_decreased_eq[of M p e trl val vmin w1 "fst (save_if_decreased M p e trl val vmin w1)" w']
      tr1 by simp
  have ft: "trl = Fin (mean_of (epoch_train_losses L M O' C u w e) (dataset_len (train_loader L)))"
    if "list_all (\<lambda>(l, n). is_fin l) (epoch_train_losses L M O' C u w e)"
    using t truediv_len_fin by (simp add: weighted_sum_fin[OF that] mean_of_def)
  have fv: "val = Fin (mean_of (epoch_valid_losses L M O' C u w e) (dataset_len (valid_loader L)))"
    if "list_all (\<lambda>(l, n). is_fin l) (epoch_valid_losses L M O' C u w e)"
    using v truediv_len_fin by (simp add: weighted_sum_fin[OF that] mean_of_def)
  show ?thesis
  proof (intro exI conjI impI)
    show "truediv_len (weighted_sum (epoch_train_losses L M O' C u w e)) (dataset_len (train_loader L)) = Inr trl"
      by (fact t)
    show "truediv_len (weighted_sum (epoch_valid_losses L M O' C u w e)) (dataset_len (valid_loader L)) = Inr val"
      by (fact v)
    show "trace w' = trace w @ epoch_events L e @ PrintEpoch e trl val #
        (if fle val vmin then [PrintSaving vmin val, TorchSave p] else [])"
      by (fact tr)
    show "trl = Fin (mean_of (epoch_train_losses L M O' C u w e) (dataset_len (train_loader L)))"
      if "list_all (\<lambda>(l, n). is_fin l) (epoch_train_losses L M O' C u w e)"
      using that by (rule ft)
    show "val = Fin (mean_of (epoch_valid_losses L M O' C u w e) (dataset_len (valid_loader L)))"
      if "list_all (\<lambda>(l, n). is_fin l) (epoch_valid_losses L M O' C u w e)"
      using that by (rule fv)
  qed
qed

lemma toy_epoch1:
  "train_epoch toy_loaders toy_model toy_optimizer toy_criterion False ''toy.pt'' (PInf, toy_world) 1
     = (Inr (Fin (- 2)), toy_after 1)"
proof -
  have "[1..1] = [1::int]" by (simp add: upto.simps)
  with toy_run1 show ?thesis by (simp split: prod.splits sum.splits)
qed

lemma toy_epoch1_losses:
  "epoch_train_losses toy_loaders toy_model toy_optimizer toy_criterion False toy_world 1
     = [(Fin 3, 2), (Fin 1, 1)]"
  "epoch_valid_losses toy_loaders toy_model toy_optimizer toy_criterion False toy_world 1
     = [(Fin (- 2), 2)]"
  by (simp_all add: epoch_train_losses_def epoch_valid_losses_def batch_loss_def toy_defs run_defs)

theorem epoch_reports_weighted_means_witness:
  "train_epoch toy_loaders toy_model toy_optimizer toy_criterion False ''toy.pt'' (PInf, toy_world) 1
     = (Inr (Fin (- 2)), toy_after 1)
   \<and> epoch_train_losses toy_loaders toy_model toy_optimizer toy_criterion False toy_world 1
       = [(Fin 3, 2), (Fin 1, 1)]
   \<and> epoch_valid_losses toy_loaders toy_model toy_optimizer toy_criterion False toy_world 1
       = [(Fin (- 2), 2)]
   \<and> dataset_len (train_loader toy_loaders) = 3 \<and> dataset_len (valid_loader toy_loaders) = 2
   \<and> trace (toy_after 1) = trace toy_world @ epoch_events toy_loaders 1 @
        [PrintEpoch 1 (Fin ((3 * 2 + 1 * 1) / 3)) (Fin ((- 2) * 2 / 2)), PrintSaving PInf (Fin (- 2)),
         TorchSave ''toy.pt'']"
proof -
  have n: "dataset_len (train_loader toy_loaders) = 3" "dataset_len (valid_loader toy_loaders) = 2"
    by (simp_all add: toy_loaders_def)
  from epoch_reports_weighted_means[OF toy_epoch1]
  have "trace (toy_after 1) = trace toy_world @ epoch_events toy_loaders 1 @
        [PrintEpoch 1 (Fin ((3 * 2 + 1 * 1) / 3)) (Fin ((- 2) * 2 / 2)), PrintSaving PInf (Fin (- 2)),
         TorchSave ''toy.pt'']"
    by (auto simp: toy_epoch1_losses n mean_of_def)
  with toy_epoch1 toy_epoch1_losses n show ?thesis by (intro conjI)
qed

text \<open>
  Claim C5. \<open>test\<close> makes one pass over the test loader and updates nothing: the heap of
  tensors and the files are as before, whatever it returns. When it returns, it has printed the
  mean loss, which is the batch-size-weighted sum of the batch losses divided by the length of
  the test dataset, and the accuracy as the count of samples whose label is the predicted
  class (\<open>test_correct\<close>) over the count of samples seen (\<open>test_total\<close>), with the percentage
  \<open>100 * correct / total\<close> cut to a whole number by \<open>%2d\<close>. The predicted class of a sample is
  stated by \<open>top1\<close> on its row of logits, without reference to the code that finds it: the
  position of the largest logit, the first such position when several are equal. In the run
  below the first three samples are predicted right (classes 1, 0 and, on equal logits, 0) and
  the fourth is not.
\<close>

theorem test_reports_accuracy:
  "heap (snd (test L M C u w)) = heap w \<and> files (snd (test L M C u w)) = files w
   \<and> (\<forall>w'. test L M C u w = (Inr (), w') \<longrightarrow>
        (\<exists>test_loss.
            truediv_len (weighted_sum (test_losses (test_log M C w (batches (test_loader L) 0))))
              (dataset_len (test_loader L)) = Inr test_loss
          \<and> 0 < test_total (test_log M C w (batches (test_loader L) 0))
          \<and> trace w' = trace w @ test_events (test_log M C w (batches (test_loader L) 0))
              @ [PrintTestLoss test_loss,
                 PrintTestAccuracy
                   \<lfloor>100 * real (test_correct (test_log M C w (batches (test_loader L) 0)))
                       / real (test_total (test_log M C w (batches (test_loader L) 0)))\<rfloor>
                   (int (test_correct (test_log M C w (batches (test_loader L) 0))))
                   (int (test_total (test_log M C w (batches (test_loader L) 0))))]))"
proof (intro conjI allI impI)
  let ?bs = "batches (test_loader L) 0"
  obtain r w1 where tl: "test_loop M C u (Fin 0, 0, 0) w ?bs = (r, w1)"
    by (cases "test_loop M C u (Fin 0, 0, 0) w ?bs")
  have fr: "heap w1 = heap w" "files w1 = files w"
    using test_loop_frame[of M C u "(Fin 0, 0, 0)" w ?bs] tl by simp_all
  have w': "heap (snd (test L M C u w)) = heap w1 \<and> files (snd (test L M C u w)) = files w1"
    by (auto simp: test_def tl Let_def split: sum.splits prod.splits)
  show "heap (snd (test L M C u w)) = heap w" using w' fr by simp
  show "files (snd (test L M C u w)) = files w" using w' fr by simp
  fix w' assume ok: "test L M C u w = (Inr (), w')"
  from ok tl obtain a c t where r: "r = Inr (a, c, t)"
    by (cases r) (auto simp: test_def)
  from ok obtain test_loss where d: "truediv_len a (dataset_len (test_loader L)) = Inr test_loss"
    and tpos: "t \<noteq> 0"
    and w'eq: "w' = emit (PrintTestAccuracy \<lfloor>100 * real c / real t\<rfloor> (int c) (int t))
                      (emit (PrintTestLoss test_loss) w1)"
    by (auto simp: test_def tl r Let_def split: sum.splits if_splits)
  from test_loop_ok[OF tl[unfolded r]]
  have tr: "trace w1 = trace w @ test_events (test_log M C w ?bs)"
    and a: "a = weighted_sum (test_losses (test_log M C w ?bs))"
    and c: "c = test_correct (test_log M C w ?bs)"
    and t: "t = test_total (test_log M C w ?bs)"
    by (simp_all add: weighted_sum_def)
  show "\<exists>test_loss.
            truediv_len (weighted_sum (test_losses (test_log M C w ?bs)))
              (dataset_len (test_loader L)) = Inr test_loss
          \<and> 0 < test_total (test_log M C w ?bs)
          \<and> trace w' = trace w @ test_events (test_log M C w ?bs)
              @ [PrintTestLoss test_loss,
                 PrintTestAccuracy
                   \<lfloor>100 * real (test_correct (test_log M C w ?bs))
                       / real (test_total (test_log M C w ?bs))\<rfloor>
                   (int (test_correct (test_log M C w ?bs)))
                   (int (test_total (test_log M C w ?bs)))]"
    using d tpos by (intro exI[of _ test_loss]) (simp add: w'eq tr a[symmetric] c[symmetric] t[symmetric])
qed

lemma sharp_test:
  "test sharp_loaders toy_model toy_criterion False sharp_world
     = (Inr (), snd (test sharp_loaders toy_model toy_criterion False sharp_world))"
proof (rule pairI)
  show "fst (test sharp_loaders toy_model toy_criterion False sharp_world) = Inr ()"
    by (simp add: test_def test_loop.simps argmax_def beats_def count_eq_def sharp_loaders_def
        sharp_world_def toy_defs run_defs)
qed simp

lemma sharp_test_log:
  "test_log toy_model toy_criterion sharp_world (batches (test_loader sharp_loaders) 0)
     = [([[Fin 1, Fin 2], [Fin (- 3), Fin (- 6)]], [1, 0], Fin (- 4)),
        ([[Fin 0, Fin 0], [Fin (- 1), Fin (- 2)]], [0, 1], Fin (- 2))]"
  by (simp add: batch_loss_def sharp_loaders_def sharp_world_def toy_defs run_defs)

lemma sharp_top1:
  "top1 [Fin 1, Fin 2] 1" "top1 [Fin (- 3), Fin (- 6)] 0" "top1 [Fin 0, Fin 0] 0"
  "\<not> top1 [Fin (- 1), Fin (- 2)] 1"
  by (simp_all add: top1_def no_larger_def)

theorem test_reports_accuracy_witness:
  "test sharp_loaders toy_model toy_criterion False sharp_world
     = (Inr (), snd (test sharp_loaders toy_model toy_criterion False sharp_world))
   \<and> heap (snd (test sharp_loaders toy_model toy_criterion False sharp_world)) = heap sharp_world
   \<and> test_log toy_model toy_criterion sharp_world (batches (test_loader sharp_loaders) 0)
       = [([[Fin 1, Fin 2], [Fin (- 3), Fin (- 6)]], [1, 0], Fin (- 4)),
          ([[Fin 0, Fin 0], [Fin (- 1), Fin (- 2)]], [0, 1], Fin (- 2))]
   \<and> top1 [Fin 1, Fin 2] 1 \<and> top1 [Fin (- 3), Fin (- 6)] 0 \<and> top1 [Fin 0, Fin 0] 0
   \<and> \<not> top1 [Fin (- 1), Fin (- 2)] 1
   \<and> trace (snd (test sharp_loaders toy_model toy_criterion False sharp_world))
       = [Forward 2, Forward 2, PrintTestLoss (Fin (- 3)), PrintTestAccuracy 75 3 4]"
proof -
  let ?w' = "snd (test sharp_loaders toy_model toy_criterion False sharp_world)"
  note t = test_reports_accuracy[of sharp_loaders toy_model toy_criterion False sharp_world]
  from t have h: "heap ?w' = heap sharp_world" by simp
  from t sharp_test have "\<exists>test_loss.
            truediv_len (weighted_sum (test_losses (test_log toy_model toy_criterion sharp_world (batches (test_loader sharp_loaders) 0))))
              (dataset_len (test_loader sharp_loaders)) = Inr test_loss
          \<and> 0 < test_total (test_log toy_model toy_criterion sharp_world (batches (test_loader sharp_loaders) 0))
          \<and> trace ?w' = trace sharp_world @ test_events (test_log toy_model toy_criterion sharp_world (batches (test_loader sharp_loaders) 0))
              @ [PrintTestLoss test_loss,
                 PrintTestAccuracy
                   \<lfloor>100 * real (test_correct (test_log toy_model toy_criterion sharp_world (batches (test_loader sharp_loaders) 0)))
                       / real (test_total (test_log toy_model toy_criterion sharp_world (batches (test_loader sharp_loaders) 0)))\<rfloor>
                   (int (test_correct (test_log toy_model toy_criterion sharp_world (batches (test_loader sharp_loaders) 0))))
                   (int (test_total (test_log toy_model toy_criterion sharp_world (batches (test_loader sharp_loaders) 0))))]"
    by blast
  moreover have "dataset_len (test_loader sharp_loaders) = 4" "trace sharp_world = []"
    by (simp_all add: sharp_loaders_def sharp_world_def toy_world_def)
  ultimately have "trace ?w' = [Forward 2, Forward 2, PrintTestLoss (Fin (- 3)), PrintTestAccuracy 75 3 4]"
    unfolding sharp_test_log
    by (auto simp: test_losses_def test_events_def test_correct_def test_total_def
        n_correct_def top1_def no_larger_def weighted_sum_def truediv_len_def)
  with sharp_test h sharp_test_log sharp_top1 show ?thesis by (intro conjI)
qed

text \<open>
  Claim C6. In the validation phase of every epoch the train loop runs a forward pass and the
  loss for each batch and nothing else: the phase adds to the trace one forward event per batch
  and the progress lines, no \<open>zero_grad\<close>, \<open>backward\<close> or \<open>step\<close>, and every tensor of the heap
  (data, gradient and flags) and every file is as before the phase. The phase of epoch \<open>e\<close> is
  \<open>valid_phase\<close> at pass \<open>e - 1\<close>, run in the world the training phase left.
\<close>

theorem validation_changes_no_parameter:
  "heap (snd (valid_phase L M C u k w)) = heap w
   \<and> files (snd (valid_phase L M C u k w)) = files w
   \<and> trace (snd (valid_phase L M C u k w)) =
       trace w @ valid_events L (enumerate 0 (batches (valid_loader L) k))
   \<and> ZeroGrad \<notin> set (valid_events L (enumerate 0 (batches (valid_loader L) k)))
   \<and> Backward \<notin> set (valid_events L (enumerate 0 (batches (valid_loader L) k)))
   \<and> Step \<notin> set (valid_events L (enumerate 0 (batches (valid_loader L) k)))"
proof -
  have "e \<notin> set (valid_events L ibs)" if "e = ZeroGrad \<or> e = Backward \<or> e = Step" for e ibs
    using that by (auto simp: valid_events_def split: if_splits)
  then show ?thesis by (simp add: valid_phase_frame)
qed

text \<open>
  Claim C7. In the transfer notebook the optimizer is built over
  \<open>model_transfer.classifier.parameters()\<close> alone. For a model whose feature extractor and
  classifier share no tensor, its parameter group is the list of classifier tensors, an
  optimizer step leaves every tensor outside that list as it was, in particular every tensor of
  the feature extractor, and after any run of \<open>train\<close> with that optimizer every tensor of the
  feature extractor holds the data it held before. The model the notebook builds is such a
  model (\<open>model_transfer_disjoint\<close>); the cell that is to freeze the feature extractor changes
  no flag that autograd reads (\<open>freeze_features_no_effect\<close>), so the feature tensors do collect
  gradients, and it is the optimizer's parameter list alone that keeps their data in place.
\<close>

theorem transfer_optimizer_moves_classifier_only:
  assumes "set (parameters (features m)) \<inter> set (parameters (classifier m)) = {}"
  shows "param_groups (optimizer_transfer m) = parameters (classifier m)
       \<and> (\<forall>r. r \<notin> set (parameters (classifier m)) \<longrightarrow> heap (step (optimizer_transfer m) w) r = heap w r)
       \<and> (\<forall>r\<in>set (parameters (features m)). heap (step (optimizer_transfer m) w) r = heap w r)
       \<and> (\<forall>r\<in>set (parameters (features m)).
            map_option data (heap (snd (train n L m (optimizer_transfer m) C u p w)) r)
              = map_option data (heap w r))"
proof -
  have pg: "param_groups (optimizer_transfer m) = parameters (classifier m)"
    by (simp add: optimizer_transfer_def SGD_def)
  have st: "heap (step (optimizer_transfer m) w) r = heap w r" if "r \<notin> set (parameters (classifier m))" for r
    using that by (simp add: step_frame pg)
  have tr: "map_option data (heap (snd (train n L m (optimizer_transfer m) C u p w)) r)
              = map_option data (heap w r)" if "r \<notin> set (parameters (classifier m))" for r
    using train_frame[where O' = "optimizer_transfer m" and w = w and n = n and L = L and M = m
        and C = C and u = u and p = p] that
    by (simp add: same_data_off_def pg)
  from assms have "r \<notin> set (parameters (classifier m))" if "r \<in> set (parameters (features m))" for r
    using that by auto
  then have fe: "\<forall>r\<in>set (parameters (features m)). r \<notin> set (parameters (classifier m))"
    by simp
  show ?thesis
  proof (intro conjI allI ballI impI)
    show "param_groups (optimizer_transfer m) = parameters (classifier m)" by (fact pg)
    show "heap (step (optimizer_transfer m) w) r = heap w r"
      if "r \<notin> set (parameters (classifier m))" for r using that by (rule st)
    show "heap (step (optimizer_transfer m) w) r = heap w r"
      if "r \<in> set (parameters (features m))" for r using that fe by (intro st) simp
    show "map_option data (heap (snd (train n L m (optimizer_transfer m) C u p w)) r)
              = map_option data (heap w r)"
      if "r \<in> set (parameters (features m))" for r using that fe by (intro tr) simp
  qed
qed

theorem transfer_optimizer_moves_classifier_only_witness:
  "set (parameters (features toy_model)) \<inter> set (parameters (classifier toy_model)) = {}
   \<and> param_groups (optimizer_transfer toy_model) = [2, 3]
   \<and> map_option data (heap (snd (train 1 toy_loaders toy_model (optimizer_transfer toy_model)
                                    toy_criterion False ''model_transfer.pt'' (freeze_features toy_model toy_world))) 0)
       = Some [Fin 1]
   \<and> map_option data (heap (snd (train 1 toy_loaders toy_model (optimizer_transfer toy_model)
                                    toy_criterion False ''model_transfer.pt'' (freeze_features toy_model toy_world))) 1)
       = Some [Fin 0]
   \<and> map_option data (heap (snd (train 1 toy_loaders toy_model (optimizer_transfer toy_model)
                                    toy_criterion False ''model_transfer.pt'' (freeze_features toy_model toy_world))) 2)
       = Some [Fin (49 / 50)]"
proof -
  have d: "set (parameters (features toy_model)) \<inter> set (parameters (classifier toy_model)) = {}"
    by (simp add: toy_model_def parameters_def)
  have c: "map_option data (heap (snd (train 1 toy_loaders toy_model (optimizer_transfer toy_model)
                                    toy_criterion False ''model_transfer.pt'' (freeze_features toy_model toy_world))) 2)
       = Some [Fin (49 / 50)]"
    by (simp add: optimizer_transfer_def learning_rate_def freeze_features_def toy_defs run_defs)
  have f: "map_option data (heap (freeze_features toy_model toy_world) 0) = Some [Fin 1]"
    "map_option data (heap (freeze_features toy_model toy_world) 1) = Some [Fin 0]"
    by (simp_all add: freeze_features_no_effect toy_world_def toy_tensor_def)
  from transfer_optimizer_moves_classifier_only[OF d, of "freeze_features toy_model toy_world" 1 toy_loaders
      toy_criterion False "''model_transfer.pt''"] f c d
  show ?thesis
    by (simp add: toy_model_def parameters_def)
qed

text \<open>
  Claim C8. What \<open>train\<close> returns is the model it was given: the same module, holding the same
  references to the same tensors, and the run allocates no tensor (the heap has the addresses
  it had), so the training is seen through the handle the caller passed in.
\<close>

theorem train_returns_its_model:
  assumes "train n L M O' C u p w = (Inr m', w')"
  shows "m' = M \<and> dom (heap w') = dom (heap w)"
proof -
  have "m' = M"
    using assms by (auto simp: train_def split: prod.splits sum.splits)
  moreover have "dom (heap w') = dom (heap w)"
    using train_frame[where O' = O' and w = w and n = n and L = L and M = M
        and C = C and u = u and p = p] assms
    by (simp add: same_data_off_def)
  ultimately show ?thesis by simp
qed

lemma toy_train1:
  "train 1 toy_loaders toy_model toy_optimizer toy_criterion False ''toy.pt'' toy_world
     = (Inr toy_model,
        snd (train 1 toy_loaders toy_model toy_optimizer toy_criterion False ''toy.pt'' toy_world))"
proof (rule pairI)
  have "[1..1] = [1::int]" by (simp add: upto.simps)
  then show "fst (train 1 toy_loaders toy_model toy_optimizer toy_criterion False ''toy.pt'' toy_world)
          = Inr toy_model"
    using toy_run1 by (simp add: train_def)
qed simp

theorem train_returns_its_model_witness:
  "train 1 toy_loaders toy_model toy_optimizer toy_criterion False ''toy.pt'' toy_world
     = (Inr toy_model,
        snd (train 1 toy_loaders toy_model toy_optimizer toy_criterion False ''toy.pt'' toy_world))
   \<and> dom (heap (snd (train 1 toy_loaders toy_model toy_optimizer toy_criterion False ''toy.pt'' toy_world)))
       = dom (heap toy_world)
   \<and> map_option data (heap (snd (train 1 toy_loaders toy_model toy_optimizer toy_criterion False ''toy.pt'' toy_world)) 2)
       = Some [Fin 0]
   \<and> map_option data (heap toy_world 2) = Some [Fin 1]"
proof -
  have d: "map_option data (heap (snd (train 1 toy_loaders toy_model toy_optimizer toy_criterion False ''toy.pt'' toy_world)) 2)
       = Some [Fin 0]"
    by (simp add: toy_defs run_defs)
  have d0: "map_option data (heap toy_world 2) = Some [Fin 1]"
    by (simp add: toy_defs)
  from train_returns_its_model[OF toy_train1] toy_train1 d d0 show ?thesis
    by (intro conjI) simp_all
qed

text \<open>
  Claim C9, as amended. In a run of \<open>train\<close> with \<open>n_epochs >= 1\<close> whose first epoch completes
  with a validation loss that is not NaN, a checkpoint is written at the end of the first
  epoch: the running minimum starts at infinity and every float but NaN is at most infinity.
  The file then holds the parameters the model has at the end of that epoch, and the run goes
  on from there with that loss as the running minimum.
\<close>

theorem first_epoch_writes_checkpoint:
  assumes "1 \<le> n"
      and "epoch_losses L M O' C u w0 1 = (Inr (trl, val), w1)"
      and "val \<noteq> NaN"
  shows "\<exists>w2. train_epoch L M O' C u p (PInf, w0) 1 = (Inr val, w2)
           \<and> files w2 p = Some (state_dict M w1)
           \<and> trace w2 = trace w1 @ [PrintEpoch 1 trl val, PrintSaving PInf val, TorchSave p]
           \<and> train n L M O' C u p w0 =
               (case train_loop L M O' C u p (val, w2) [2..n] of
                  (Inl err, w3) \<Rightarrow> (Inl err, w3)
                | (Inr m, w3) \<Rightarrow> (Inr M, w3))"
proof -
  obtain m' w2 where s: "save_if_decreased M p 1 trl val PInf w1 = (m', w2)"
    by (cases "save_if_decreased M p 1 trl val PInf w1")
  from save_if_decreased_eq[OF s] \<open>val \<noteq> NaN\<close>
  have m': "m' = val" and f: "files w2 p = Some (state_dict M w1)"
    and t: "trace w2 = trace w1 @ [PrintEpoch 1 trl val, PrintSaving PInf val, TorchSave p]"
    by simp_all
  have te: "train_epoch L M O' C u p (PInf, w0) 1 = (Inr val, w2)"
    by (simp add: train_epoch_eq[OF assms(2)] s m')
  have "[1..n] = 1 # [2..n]"
    using \<open>1 \<le> n\<close> by (simp add: upto_rec1)
  then have "train n L M O' C u p w0 =
               (case train_loop L M O' C u p (val, w2) [2..n] of
                  (Inl err, w3) \<Rightarrow> (Inl err, w3)
                | (Inr m, w3) \<Rightarrow> (Inr M, w3))"
    by (simp add: train_def te)
  with te f t show ?thesis by (intro exI[of _ w2] conjI)
qed

theorem first_epoch_writes_checkpoint_witness:
  "epoch_losses toy_loaders toy_model toy_optimizer toy_criterion False toy_world 1
     = (Inr (Fin (7 / 3), Fin (- 2)), toy_mid 1)
   \<and> Fin (- 2) \<noteq> NaN
   \<and> (\<exists>w2. train_epoch toy_loaders toy_model toy_optimizer toy_criterion False ''toy.pt'' (PInf, toy_world) 1
              = (Inr (Fin (- 2)), w2)
         \<and> files w2 ''toy.pt'' = Some (state_dict toy_model (toy_mid 1))
         \<and> trace w2 = trace (toy_mid 1) @
             [PrintEpoch 1 (Fin (7 / 3)) (Fin (- 2)), PrintSaving PInf (Fin (- 2)), TorchSave ''toy.pt'']
         \<and> train 1 toy_loaders toy_model toy_optimizer toy_criterion False ''toy.pt'' toy_world
             = (Inr toy_model, w2))"
proof -
  have nn: "Fin (- 2) \<noteq> NaN" by simp
  have le: "(1::int) \<le> 1" by simp
  from first_epoch_writes_checkpoint[OF le toy_losses1 nn, of "''toy.pt''"]
  have "\<exists>w2. train_epoch toy_loaders toy_model toy_optimizer toy_criterion False ''toy.pt'' (PInf, toy_world) 1
              = (Inr (Fin (- 2)), w2)
         \<and> files w2 ''toy.pt'' = Some (state_dict toy_model (toy_mid 1))
         \<and> trace w2 = trace (toy_mid 1) @
             [PrintEpoch 1 (Fin (7 / 3)) (Fin (- 2)), PrintSaving PInf (Fin (- 2)), TorchSave ''toy.pt'']
         \<and> train 1 toy_loaders toy_model toy_optimizer toy_criterion False ''toy.pt'' toy_world
             = (Inr toy_model, w2)"
    by simp
  with toy_losses1 nn show ?thesis by (intro conjI)
qed

text \<open>
  Claim C9 as stated fails when the first validation loss is NaN: the first epoch of this run
  completes, its epoch line shows the NaN, nothing is saved and no file lies at the path.
\<close>

theorem nan_first_epoch_writes_nothing:
  "fst (train 1 nan_loaders toy_model toy_optimizer toy_criterion False ''toy.pt'' toy_world) = Inr toy_model
   \<and> trace (snd (train 1 nan_loaders toy_model toy_optimizer toy_criterion False ''toy.pt'' toy_world))
       = [ZeroGrad, Forward 2, Backward, Step, PrintTrainingBatch 0 2,
          ZeroGrad, Forward 1, Backward, Step,
          Forward 1, PrintValidationBatch 0 1,
          PrintEpoch 1 (Fin (7 / 3)) NaN]
   \<and> files (snd (train 1 nan_loaders toy_model toy_optimizer toy_criterion False ''toy.pt'' toy_world)) ''toy.pt''
       = None"
  by (simp add: toy_defs run_defs)

text \<open>
  Claim C10. With \<open>n_epochs = 0\<close> the loop body never runs: \<open>train\<close> returns the model and leaves
  the world as it found it, so the trace has no new event (no batch, no optimizer step, no
  \<open>torch.save\<close>) and no tensor and no file has changed.
\<close>

theorem zero_epochs_change_nothing:
  "train 0 L M O' C u p w = (Inr M, w)
   \<and> trace (snd (train 0 L M O' C u p w)) = trace w
   \<and> heap (snd (train 0 L M O' C u p w)) = heap w
   \<and> files (snd (train 0 L M O' C u p w)) = files w"
proof -
  have "[1..0] = ([]::int list)" by simp
  then have "train 0 L M O' C u p w = (Inr M, w)"
    by (simp add: train_def)
  then show ?thesis by simp
qed

end
